theory Spec2Isabelle
  imports Main "HOL-Library.Word"
begin

unbundle bit_operations_syntax

section \<open>Go strings\<close>

text \<open>
  A Go string is a sequence of bytes; it is modelled as a \<open>string\<close> (a list of 8-bit
  characters).  The functions of package \<open>strings\<close> that the program calls are written
  out here byte by byte, as the Go library computes them.  Calls to \<open>slog\<close> only
  write log lines; they are left out of the model except where a property is about them.
\<close>

definition HasPrefix :: "string \<Rightarrow> string \<Rightarrow> bool" where
  "HasPrefix s p = (length p \<le> length s \<and> take (length p) s = p)"

definition HasSuffix :: "string \<Rightarrow> string \<Rightarrow> bool" where
  "HasSuffix s suf = (length suf \<le> length s \<and> drop (length s - length suf) s = suf)"

text \<open>\<open>strings.Index\<close>: the index of the first instance of \<open>sub\<close> in \<open>s\<close>, or -1.\<close>

fun Index :: "string \<Rightarrow> string \<Rightarrow> int" where
  "Index [] sub = (if sub = [] then 0 else - 1)"
| "Index (c # cs) sub =
     (if HasPrefix (c # cs) sub then 0
      else (let r = Index cs sub in if r < 0 then - 1 else r + 1))"

definition Contains :: "string \<Rightarrow> string \<Rightarrow> bool" where
  "Contains s sub = (0 \<le> Index s sub)"

text \<open>\<open>strings.Split\<close> with a separator of one byte.\<close>

fun Split :: "string \<Rightarrow> char \<Rightarrow> string list" where
  "Split [] sep = [[]]"
| "Split (c # cs) sep =
     (if c = sep then [] # Split cs sep
      else (case Split cs sep of
              [] \<Rightarrow> [[c]]
            | w # ws \<Rightarrow> (c # w) # ws))"

section \<open>tunnel/tls/fingerprint: ParseCipher\<close>

text \<open>
  \<open>tls.CipherSuites()\<close> is the table of the TLS library; it is a parameter of the
  model.  The state of the two loops is the result slice and the lines written by
  \<open>slog.Warn\<close>.
\<close>

record CipherSuite =
  Name :: string
  ID :: "16 word"

datatype log_line = Warn string string

type_synonym cipher_state = "16 word list \<times> log_line list"

text \<open>The inner loop \<open>for _, q := range all\<close>, with its \<open>break\<close>.\<close>

fun ParseCipher_inner :: "bool \<Rightarrow> string \<Rightarrow> CipherSuite list \<Rightarrow> cipher_state \<Rightarrow> cipher_state" where
  "ParseCipher_inner found p [] st = st"
| "ParseCipher_inner found p (q # qs) (result, logs) =
     (if Name q = p then (result @ [ID q], logs)
      else ParseCipher_inner found p qs
             (result, if \<not> found then logs @ [Warn ''invalid cipher suite'' p] else logs))"

text \<open>The outer loop \<open>for _, p := range s\<close>; each round starts with \<open>found := true\<close>.\<close>

fun ParseCipher_outer :: "CipherSuite list \<Rightarrow> string list \<Rightarrow> cipher_state \<Rightarrow> cipher_state" where
  "ParseCipher_outer all [] st = st"
| "ParseCipher_outer all (p # ps) st = ParseCipher_outer all ps (ParseCipher_inner True p all st)"

definition ParseCipher :: "CipherSuite list \<Rightarrow> string list \<Rightarrow> cipher_state" where
  "ParseCipher all s = ParseCipher_outer all s ([], [])"

text \<open>The expected result for one entry: the ID of the (first) suite of that name.\<close>

definition suite_id :: "CipherSuite list \<Rightarrow> string \<Rightarrow> 16 word option" where
  "suite_id all p = map_option ID (find (\<lambda>q. Name q = p) all)"

section \<open>proxy: logLevelFromConfig\<close>

text \<open>
  \<open>slog.Level\<close> is an integer; the constants are those of \<open>log/slog\<close>, and
  \<open>LevelTrace\<close> and \<open>LevelFatal\<close> are those the package \<open>slogadapter\<close> declares.
  A handler with minimum level \<open>m\<close> writes a record of level \<open>l\<close> iff \<open>l \<ge> m\<close>.
\<close>

definition LevelTrace :: int where "LevelTrace = - 8"
definition LevelDebug :: int where "LevelDebug = - 4"
definition LevelInfo :: int where "LevelInfo = 0"
definition LevelWarn :: int where "LevelWarn = 4"
definition LevelError :: int where "LevelError = 8"
definition LevelFatal :: int where "LevelFatal = 12"

definition Enabled :: "int \<Rightarrow> int \<Rightarrow> bool" where
  "Enabled minLevel l = (minLevel \<le> l)"

definition logLevelFromConfig :: "int \<Rightarrow> int" where
  "logLevelFromConfig level =
     (if level = 0 then LevelDebug
      else if level = 1 then LevelInfo
      else if level = 2 then LevelWarn
      else if level = 3 then LevelError
      else if level = 4 then LevelError
      else if level = 5 then 1000
      else LevelInfo)"


section \<open>Go's package net\<close>

text \<open>
  A \<open>net.IP\<close> and a \<open>net.IPMask\<close> are byte slices; \<open>nil\<close> is the empty list.
  The functions below follow the library's source: \<open>To4\<close>, \<open>CIDRMask\<close>,
  \<open>IP.Mask\<close>, \<open>networkNumberAndMask\<close> and \<open>IPNet.Contains\<close>.
\<close>

type_synonym IP = "8 word list"

definition IPv4len :: nat where "IPv4len = 4"
definition IPv6len :: nat where "IPv6len = 16"

definition v4InV6Prefix :: IP where
  "v4InV6Prefix = [0, 0, 0, 0, 0, 0, 0, 0, 0, 0, 0xff, 0xff]"

text \<open>\<open>To4\<close> returns \<open>nil\<close> (here \<open>None\<close>) when the address is not an IPv4 address.\<close>

definition To4 :: "IP \<Rightarrow> IP option" where
  "To4 ip =
     (if length ip = IPv4len then Some ip
      else if length ip = IPv6len \<and> take 12 ip = v4InV6Prefix then Some (drop 12 ip)
      else None)"

text \<open>The loop of \<open>CIDRMask\<close> that fills the mask, \<open>l\<close> bytes from \<open>n\<close> remaining ones.\<close>

fun CIDRMask_fill :: "nat \<Rightarrow> nat \<Rightarrow> IP" where
  "CIDRMask_fill 0 n = []"
| "CIDRMask_fill (Suc l) n =
     (if 8 \<le> n then 0xff # CIDRMask_fill l (n - 8)
      else NOT (drop_bit n (0xff :: 8 word)) # CIDRMask_fill l 0)"

definition CIDRMask :: "int \<Rightarrow> int \<Rightarrow> IP" where
  "CIDRMask ones bits =
     (if bits \<noteq> 8 * int IPv4len \<and> bits \<noteq> 8 * int IPv6len then []
      else if ones < 0 \<or> bits < ones then []
      else CIDRMask_fill (nat (bits div 8)) (nat ones))"

definition allFF :: "IP \<Rightarrow> bool" where
  "allFF b = list_all (\<lambda>c. c = 0xff) b"

definition IP_Mask :: "IP \<Rightarrow> IP \<Rightarrow> IP" where
  "IP_Mask ip0 mask0 =
     (let mask = (if length mask0 = IPv6len \<and> length ip0 = IPv4len \<and> allFF (take 12 mask0)
                  then drop 12 mask0 else mask0);
          ip = (if length mask = IPv4len \<and> length ip0 = IPv6len \<and> take 12 ip0 = v4InV6Prefix
                then drop 12 ip0 else ip0)
      in if length ip \<noteq> length mask then []
         else map2 (\<lambda>a b. a AND b) ip mask)"

record IPNet =
  IPNet_IP :: IP
  IPNet_Mask :: IP

definition networkNumberAndMask :: "IPNet \<Rightarrow> IP \<times> IP" where
  "networkNumberAndMask n =
     (case (case To4 (IPNet_IP n) of
              Some ip4 \<Rightarrow> Some ip4
            | None \<Rightarrow> if length (IPNet_IP n) \<noteq> IPv6len then None else Some (IPNet_IP n)) of
        None \<Rightarrow> ([], [])
      | Some ip \<Rightarrow>
          let m = IPNet_Mask n in
          if length m = IPv4len then (if length ip \<noteq> IPv4len then ([], []) else (ip, m))
          else if length m = IPv6len then (if length ip = IPv4len then (ip, drop 12 m) else (ip, m))
          else ([], []))"

definition IPNet_Contains :: "IPNet \<Rightarrow> IP \<Rightarrow> bool" where
  "IPNet_Contains n ip0 =
     (let (nn, m) = networkNumberAndMask n;
          ip = (case To4 ip0 of Some x \<Rightarrow> x | None \<Rightarrow> ip0)
      in if length ip \<noteq> length nn then False
         else list_all (\<lambda>i. (nn ! i) AND (m ! i) = (ip ! i) AND (m ! i)) [0 ..< length ip])"

section \<open>tunnel/router: the client\<close>

text \<open>
  The types \<open>v2router.Domain\<close>, \<open>v2router.CIDR\<close> and \<open>tunnel.Address\<close> are declared
  outside the router's file; the records below have the fields the router reads and
  writes.  A rule type outside the four named ones is \<open>Domain_Other\<close>.
\<close>

definition Block :: int where "Block = 0"
definition Bypass :: int where "Bypass = 1"
definition Proxy :: int where "Proxy = 2"

definition AsIs :: int where "AsIs = 0"
definition IPIfNonMatch :: int where "IPIfNonMatch = 1"
definition IPOnDemand :: int where "IPOnDemand = 2"

datatype Domain_Type = Domain_Plain | Domain_Regex | Domain_Domain | Domain_Full | Domain_Other int

record Domain =
  Type :: Domain_Type
  Value :: string
  Attribute :: "string list"

record CIDR =
  Ip :: IP
  Prefix :: "32 word"

datatype AddressType = tunnel_IPv4 | tunnel_DomainName | tunnel_IPv6

record Address =
  AddressType :: AddressType
  DomainName :: string
  IP :: IP
  Port :: int

text \<open>\<open>common.NewError(msg)\<close> and \<open>common.NewError(msg).Base(err)\<close>.\<close>

datatype error = NewError string | Base string error

text \<open>
  What the router calls and this file does not contain: the functions of \<open>strings\<close>
  that depend on Unicode tables, the regular expression engine, the resolver behind
  \<open>Address.ResolveIP\<close>, \<open>Address.String\<close>, the geodata loader, the text parsers of
  \<open>net\<close> and \<open>strconv\<close>, the constructor of the direct (freedom) client, and
  \<open>DialConn\<close> of a tunnel client (clients and connections are numbered).
\<close>

record env =
  ToLower :: "string \<Rightarrow> string"
  EqualFold :: "string \<Rightarrow> string \<Rightarrow> bool"
  regexp_Compile :: "string \<Rightarrow> error option"
  regexp_Match :: "string \<Rightarrow> string \<Rightarrow> error + bool"
  ResolveIP :: "Address \<Rightarrow> error + IP"
  Address_String :: "Address \<Rightarrow> string"
  LoadIP :: "string \<Rightarrow> string \<Rightarrow> error + CIDR list"
  LoadSite :: "string \<Rightarrow> string \<Rightarrow> error + Domain list"
  ParseIP :: "string \<Rightarrow> IP option"
  ParseInt :: "string \<Rightarrow> error + int"
  freedom_NewClient :: "error + nat"
  tunnel_DialConn :: "nat \<Rightarrow> Address \<Rightarrow> error + nat"

text \<open>
  \<open>matchDomain\<close>: the loop over the rule list.  In the \<open>Domain_Domain\<close> case the
  index \<open>idx - 1\<close> is read only when \<open>idx\<close> is not 0, and \<open>idx\<close> is not -1 there
  because the rule is a suffix of the target.
\<close>

fun matchDomain :: "env \<Rightarrow> Domain list \<Rightarrow> string \<Rightarrow> bool" where
  "matchDomain E [] target = False"
| "matchDomain E (d # list) target =
     (case Type d of
        Domain_Full \<Rightarrow>
          (if Value d = target then True else matchDomain E list target)
      | Domain_Domain \<Rightarrow>
          (if HasSuffix target (Value d)
           then (let idx = Index target (Value d)
                 in if idx = 0 \<or> target ! nat (idx - 1) = CHR ''.'' then True
                    else matchDomain E list target)
           else matchDomain E list target)
      | Domain_Plain \<Rightarrow>
          (if Contains target (Value d) then True else matchDomain E list target)
      | Domain_Regex \<Rightarrow>
          (case regexp_Match E (Value d) target of
             Inl err \<Rightarrow> False
           | Inr matched \<Rightarrow> if matched then True else matchDomain E list target)
      | Domain_Other t \<Rightarrow> matchDomain E list target)"

text \<open>\<open>matchIP\<close>: the local variable \<open>len\<close> of the source is \<open>len'\<close> here.\<close>

fun matchIP_loop :: "bool \<Rightarrow> int \<Rightarrow> CIDR list \<Rightarrow> IP \<Rightarrow> bool" where
  "matchIP_loop isIPv6 len' [] target = False"
| "matchIP_loop isIPv6 len' (c # list) target =
     (let n = uint (Prefix c);
          mask = CIDRMask n (8 * len');
          cidrIP = Ip c
      in if To4 cidrIP \<noteq> None \<and> isIPv6 then matchIP_loop isIPv6 len' list target
         else if To4 cidrIP = None \<and> \<not> isIPv6 then matchIP_loop isIPv6 len' list target
         else if IPNet_Contains \<lparr>IPNet_IP = IP_Mask cidrIP mask, IPNet_Mask = mask\<rparr> target then True
         else matchIP_loop isIPv6 len' list target)"

definition matchIP :: "CIDR list \<Rightarrow> IP \<Rightarrow> bool" where
  "matchIP list target =
     (if To4 target \<noteq> None then matchIP_loop False (int IPv4len) list target
      else matchIP_loop True (int IPv6len) list target)"

definition newIPAddress :: "env \<Rightarrow> Address \<Rightarrow> error + Address" where
  "newIPAddress E address =
     (case ResolveIP E address of
        Inl err \<Rightarrow> Inl (Base ''router failed to resolve ip'' err)
      | Inr ip \<Rightarrow>
          Inr \<lparr>AddressType = (if To4 ip \<noteq> None then tunnel_IPv4 else tunnel_IPv6),
               DomainName = [], IP = ip, Port = Port address\<rparr>)"

text \<open>
  The arrays \<open>[3][]*v2router.Domain\<close> and \<open>[3][]*v2router.CIDR\<close> are functions from
  the index (0, 1 or 2) to the list.
\<close>

record Client =
  domains :: "int \<Rightarrow> Domain list"
  cidrs :: "int \<Rightarrow> CIDR list"
  defaultPolicy :: int
  domainStrategy :: int
  underlay :: nat
  direct :: nat

text \<open>The loop \<open>for i := Block; i <= Proxy; i++ { if match(i) { return i } }\<close>.\<close>

function policy_loop :: "(int \<Rightarrow> bool) \<Rightarrow> int \<Rightarrow> int option" where
  "policy_loop match i =
     (if i \<le> Proxy then (if match i then Some i else policy_loop match (i + 1)) else None)"
  by pat_completeness auto
termination
  by (relation "measure (\<lambda>(match, i). nat (Proxy + 1 - i))") auto

text \<open>The three parts of \<open>Route\<close> for a domain name, each a loop that may return.\<close>

definition Route_ondemand :: "env \<Rightarrow> Client \<Rightarrow> Address \<Rightarrow> int option" where
  "Route_ondemand E c address =
     (if domainStrategy c = IPOnDemand
      then (case newIPAddress E address of
              Inr resolvedIP \<Rightarrow> policy_loop (\<lambda>i. matchIP (cidrs c i) (IP resolvedIP)) Block
            | Inl err \<Rightarrow> None)
      else None)"

definition Route_domains :: "env \<Rightarrow> Client \<Rightarrow> Address \<Rightarrow> int option" where
  "Route_domains E c address =
     policy_loop (\<lambda>i. matchDomain E (domains c i) (DomainName address)) Block"

definition Route_nonmatch :: "env \<Rightarrow> Client \<Rightarrow> Address \<Rightarrow> int option" where
  "Route_nonmatch E c address =
     (if domainStrategy c = IPIfNonMatch
      then (case newIPAddress E address of
              Inr resolvedIP \<Rightarrow> policy_loop (\<lambda>i. matchIP (cidrs c i) (IP resolvedIP)) Block
            | Inl err \<Rightarrow> None)
      else None)"

definition Route :: "env \<Rightarrow> Client \<Rightarrow> Address \<Rightarrow> int" where
  "Route E c address =
     (if AddressType address = tunnel_DomainName
      then (case Route_ondemand E c address of
              Some i \<Rightarrow> i
            | None \<Rightarrow>
               (case Route_domains E c address of
                  Some i \<Rightarrow> i
                | None \<Rightarrow>
                   (case Route_nonmatch E c address of
                      Some i \<Rightarrow> i
                    | None \<Rightarrow> defaultPolicy c)))
      else (case policy_loop (\<lambda>i. matchIP (cidrs c i) (IP address)) Block of
              Some i \<Rightarrow> i
            | None \<Rightarrow> defaultPolicy c))"

text \<open>
  \<open>DialConn\<close> returns a connection, an error, or panics; the second component is the
  list of calls it made to \<open>DialConn\<close> of another tunnel client (the client called
  and the address).
\<close>

datatype dial_result = Conn nat | Err error | Panic string

type_synonym dial_call = "nat \<times> Address"

definition DialConn :: "env \<Rightarrow> Client \<Rightarrow> Address \<Rightarrow> dial_result \<times> dial_call list" where
  "DialConn E c address =
     (let policy = Route E c address
      in if policy = Proxy then
           (case tunnel_DialConn E (underlay c) address of
              Inl err \<Rightarrow> (Err err, [(underlay c, address)])
            | Inr conn \<Rightarrow> (Conn conn, [(underlay c, address)]))
         else if policy = Block then
           (Err (NewError (''router blocked address: '' @ Address_String E address)), [])
         else if policy = Bypass then
           (case tunnel_DialConn E (direct c) address of
              Inl err \<Rightarrow> (Err (Base ''router dial error'' err), [(direct c, address)])
            | Inr conn \<Rightarrow> (Conn conn, [(direct c, address)]))
         else (Panic ''unknown policy'', []))"

subsection \<open>The matching rules in the words of the specification\<close>

text \<open>
  When a rule matches a target, as the specification says it: a Full rule equals the
  target, a Domain rule is the whole target or a suffix of it that follows a dot, a
  Keyword (Plain) rule is a substring of it, and a Regex rule is a pattern that matches
  it.  A list matches when one of its rules does.
\<close>

definition rule_matches :: "env \<Rightarrow> Domain \<Rightarrow> string \<Rightarrow> bool" where
  "rule_matches E d target =
     (case Type d of
        Domain_Full \<Rightarrow> Value d = target
      | Domain_Domain \<Rightarrow> target = Value d \<or> HasSuffix target (CHR ''.'' # Value d)
      | Domain_Plain \<Rightarrow> (\<exists>a b. target = a @ Value d @ b)
      | Domain_Regex \<Rightarrow> regexp_Match E (Value d) target = Inr True
      | Domain_Other t \<Rightarrow> False)"

definition list_matches :: "env \<Rightarrow> Domain list \<Rightarrow> string \<Rightarrow> bool" where
  "list_matches E list target = (\<exists>d \<in> set list. rule_matches E d target)"

text \<open>
  The two conditions on a rule under which the code is compared with these words: the
  pattern of a Regex rule is one the engine accepts, and the first occurrence of a
  Domain rule in the target is the one at the target's end.
\<close>

definition first_at_end :: "string \<Rightarrow> string \<Rightarrow> bool" where
  "first_at_end target d =
     (HasSuffix target d \<longrightarrow> Index target d = int (length target) - int (length d))"

definition rule_ok :: "env \<Rightarrow> string \<Rightarrow> Domain \<Rightarrow> bool" where
  "rule_ok E target d =
     (case Type d of
        Domain_Regex \<Rightarrow> (case regexp_Match E (Value d) target of Inl err \<Rightarrow> False | Inr m \<Rightarrow> True)
      | Domain_Domain \<Rightarrow> first_at_end target (Value d)
      | _ \<Rightarrow> True)"

definition rules_ok :: "env \<Rightarrow> Client \<Rightarrow> string \<Rightarrow> bool" where
  "rules_ok E c target =
     (list_all (rule_ok E target) (domains c Block)
      \<and> list_all (rule_ok E target) (domains c Bypass)
      \<and> list_all (rule_ok E target) (domains c Proxy))"

subsection \<open>The constructor\<close>

text \<open>
  The part of the configuration the router reads (\<open>cfg.Router\<close>); the rule lists are
  \<open>Router_Proxy\<close>, \<open>Router_Bypass\<close> and \<open>Router_Block\<close>.
\<close>

record Config =
  Router_Bypass :: "string list"
  Router_Proxy :: "string list"
  Router_Block :: "string list"
  DomainStrategy :: string
  DefaultPolicy :: string
  GeoIPFilename :: string
  GeoSiteFilename :: string

record codeInfo =
  code :: string
  strategy :: int

text \<open>One of the three loops of \<open>loadCode\<close>; a rule that is the bare prefix is skipped.\<close>

fun loadCode_loop :: "string \<Rightarrow> int \<Rightarrow> string list \<Rightarrow> codeInfo list \<Rightarrow> codeInfo list" where
  "loadCode_loop prefix st [] codes = codes"
| "loadCode_loop prefix st (s # ss) codes =
     loadCode_loop prefix st ss
       (if HasPrefix s prefix
        then (let left = drop (length prefix) s
              in if 0 < length left then codes @ [\<lparr>code = left, strategy = st\<rparr>] else codes)
        else codes)"

definition loadCode :: "Config \<Rightarrow> string \<Rightarrow> codeInfo list" where
  "loadCode cfg prefix =
     loadCode_loop prefix Block (Router_Block cfg)
       (loadCode_loop prefix Bypass (Router_Bypass cfg)
          (loadCode_loop prefix Proxy (Router_Proxy cfg) []))"

definition append_domains :: "Client \<Rightarrow> int \<Rightarrow> Domain list \<Rightarrow> Client" where
  "append_domains client st ds = client\<lparr>domains := (domains client)(st := domains client st @ ds)\<rparr>"

definition append_cidrs :: "Client \<Rightarrow> int \<Rightarrow> CIDR list \<Rightarrow> Client" where
  "append_cidrs client st cs = client\<lparr>cidrs := (cidrs client)(st := cidrs client st @ cs)\<rparr>"

text \<open>The loop over the \<open>geoip:\<close> codes; a code that fails to load is skipped.\<close>

fun load_geoip :: "env \<Rightarrow> Config \<Rightarrow> codeInfo list \<Rightarrow> Client \<Rightarrow> Client" where
  "load_geoip E cfg [] client = client"
| "load_geoip E cfg (c # cs) client =
     load_geoip E cfg cs
       (case LoadIP E (GeoIPFilename cfg) (code c) of
          Inl err \<Rightarrow> client
        | Inr loaded \<Rightarrow> append_cidrs client (strategy c) loaded)"

text \<open>
  The loops over a loaded site list when an attribute is wanted: a domain is appended
  once for every attribute of it whose key equals the wanted one.
\<close>

fun geosite_attrs :: "env \<Rightarrow> string \<Rightarrow> Domain \<Rightarrow> string list \<Rightarrow> int \<Rightarrow> Client \<Rightarrow> Client" where
  "geosite_attrs E attrWanted domain [] st client = client"
| "geosite_attrs E attrWanted domain (attr # attrs) st client =
     geosite_attrs E attrWanted domain attrs st
       (if EqualFold E attrWanted attr then append_domains client st [domain] else client)"

fun geosite_domains :: "env \<Rightarrow> string \<Rightarrow> Domain list \<Rightarrow> int \<Rightarrow> Client \<Rightarrow> Client" where
  "geosite_domains E attrWanted [] st client = client"
| "geosite_domains E attrWanted (domain # ds) st client =
     geosite_domains E attrWanted ds st
       (geosite_attrs E attrWanted domain (Attribute domain) st client)"

definition geosite_load :: "env \<Rightarrow> Config \<Rightarrow> string \<Rightarrow> string \<Rightarrow> int \<Rightarrow> Client \<Rightarrow> Client" where
  "geosite_load E cfg code' attrWanted st client =
     (case LoadSite E (GeoSiteFilename cfg) code' of
        Inl err \<Rightarrow> client
      | Inr domainList \<Rightarrow>
          if attrWanted \<noteq> [] then geosite_domains E attrWanted domainList st client
          else append_domains client st domainList)"

text \<open>The loop over the \<open>geosite:\<close> codes, with the split of \<open>code@attribute\<close>.\<close>

fun load_geosite :: "env \<Rightarrow> Config \<Rightarrow> codeInfo list \<Rightarrow> Client \<Rightarrow> Client" where
  "load_geosite E cfg [] client = client"
| "load_geosite E cfg (c # cs) client =
     load_geosite E cfg cs
       (let attrIdx = Index (code c) ''@''
        in if 0 < attrIdx
           then (if \<not> HasSuffix (code c) ''@''
                 then geosite_load E cfg (take (nat attrIdx) (code c))
                        (drop (nat attrIdx + 1) (code c)) (strategy c) client
                 else client)
           else if attrIdx = 0 then client
           else geosite_load E cfg (code c) [] (strategy c) client)"

text \<open>The loops over \<open>domain:\<close>, \<open>keyword:\<close> and \<open>full:\<close>, which differ in the rule type.\<close>

fun add_rules :: "env \<Rightarrow> Domain_Type \<Rightarrow> codeInfo list \<Rightarrow> Client \<Rightarrow> Client" where
  "add_rules E ty [] client = client"
| "add_rules E ty (info # infos) client =
     add_rules E ty infos
       (append_domains client (strategy info)
          [\<lparr>Type = ty, Value = ToLower E (code info), Attribute = []\<rparr>])"

text \<open>The loops over \<open>regex:\<close> and \<open>regexp:\<close>, which have the same body.\<close>

fun add_regex :: "env \<Rightarrow> codeInfo list \<Rightarrow> Client \<Rightarrow> error + Client" where
  "add_regex E [] client = Inr client"
| "add_regex E (info # infos) client =
     (case regexp_Compile E (code info) of
        Some err \<Rightarrow> Inl (Base (''invalid regular expression: '' @ code info) err)
      | None \<Rightarrow>
          add_regex E infos
            (append_domains client (strategy info)
               [\<lparr>Type = Domain_Regex, Value = code info, Attribute = []\<rparr>]))"

text \<open>The loop over \<open>cidr:\<close>; \<open>uint32(prefix)\<close> is the conversion to a 32-bit word.\<close>

fun add_cidr :: "env \<Rightarrow> codeInfo list \<Rightarrow> Client \<Rightarrow> error + Client" where
  "add_cidr E [] client = Inr client"
| "add_cidr E (info # infos) client =
     (case Split (code info) CHR ''/'' of
        [t0, t1] \<Rightarrow>
          (case ParseIP E t0 of
             None \<Rightarrow> Inl (NewError (''invalid cidr ip: '' @ code info))
           | Some ip \<Rightarrow>
               (case ParseInt E t1 of
                  Inl err \<Rightarrow> Inl (Base ''invalid prefix'' err)
                | Inr prefix \<Rightarrow>
                    add_cidr E infos
                      (append_cidrs client (strategy info)
                         [\<lparr>Ip = ip, Prefix = word_of_int prefix\<rparr>])))
      | _ \<Rightarrow> Inl (NewError (''invalid cidr: '' @ code info)))"

definition parse_domainStrategy :: "string \<Rightarrow> int option" where
  "parse_domainStrategy s =
     (if s = ''as_is'' \<or> s = ''as-is'' \<or> s = ''asis'' then Some AsIs
      else if s = ''ip_if_non_match'' \<or> s = ''ip-if-non-match'' \<or> s = ''ipifnonmatch''
        then Some IPIfNonMatch
      else if s = ''ip_on_demand'' \<or> s = ''ip-on-demand'' \<or> s = ''ipondemand''
        then Some IPOnDemand
      else None)"

definition parse_defaultPolicy :: "string \<Rightarrow> int option" where
  "parse_defaultPolicy s =
     (if s = ''proxy'' then Some Proxy
      else if s = ''bypass'' then Some Bypass
      else if s = ''block'' then Some Block
      else None)"

definition NewClient :: "env \<Rightarrow> Config \<Rightarrow> nat \<Rightarrow> error + Client" where
  "NewClient E cfg underlay' =
     (case freedom_NewClient E of
        Inl err \<Rightarrow> Inl (Base ''router failed to initialize raw client'' err)
      | Inr direct' \<Rightarrow>
     (case parse_domainStrategy (ToLower E (DomainStrategy cfg)) of
        None \<Rightarrow> Inl (NewError (''unknown strategy: '' @ DomainStrategy cfg))
      | Some ds \<Rightarrow>
     (case parse_defaultPolicy (ToLower E (DefaultPolicy cfg)) of
        None \<Rightarrow> Inl (NewError (''unknown strategy: '' @ DomainStrategy cfg))
      | Some dp \<Rightarrow>
     (let client0 = \<lparr>domains = (\<lambda>i. []), cidrs = (\<lambda>i. []), defaultPolicy = dp,
                     domainStrategy = ds, underlay = underlay', direct = direct'\<rparr>;
          client1 = load_geoip E cfg (loadCode cfg ''geoip:'') client0;
          client2 = load_geosite E cfg (loadCode cfg ''geosite:'') client1;
          client3 = add_rules E Domain_Domain (loadCode cfg ''domain:'') client2;
          client4 = add_rules E Domain_Plain (loadCode cfg ''keyword:'') client3
      in case add_regex E (loadCode cfg ''regex:'') client4 of
           Inl err \<Rightarrow> Inl err
         | Inr client5 \<Rightarrow>
        (case add_regex E (loadCode cfg ''regexp:'') client5 of
           Inl err \<Rightarrow> Inl err
         | Inr client6 \<Rightarrow>
             add_cidr E (loadCode cfg ''cidr:'')
               (add_rules E Domain_Full (loadCode cfg ''full:'') client6))))))"

section \<open>tunnel/tls: the client constructor\<close>



datatype ClientHelloID = HelloID_zero | HelloFirefox_Auto | HelloChrome_Auto | HelloIOS_Auto

record tls_Client =
  tls_underlay :: nat
  verify :: bool
  sni :: string
  ca :: "8 word list option"
  cipher :: "16 word list"
  sessionTicket :: bool
  fingerprint :: string
  helloID :: ClientHelloID



section \<open>common: SHA224String\<close>

text \<open>
  \<open>Sum224\<close> stands for the digest computed by \<open>crypto/sha256\<close> (\<open>New224\<close>, \<open>Write\<close>,
  \<open>Sum(nil)\<close>); \<open>Sprintf_02x v\<close> is \<open>fmt.Sprintf("%02x", v)\<close> for a byte.
\<close>

definition hexdigit :: "nat \<Rightarrow> char" where
  "hexdigit n = ''0123456789abcdef'' ! n"

definition Sprintf_02x :: "8 word \<Rightarrow> string" where
  "Sprintf_02x v = [hexdigit (unat v div 16), hexdigit (unat v mod 16)]"

fun SHA224String_loop :: "8 word list \<Rightarrow> string \<Rightarrow> string" where
  "SHA224String_loop [] str = str"
| "SHA224String_loop (v # val) str = SHA224String_loop val (str @ Sprintf_02x v)"

definition SHA224String :: "(string \<Rightarrow> 8 word list) \<Rightarrow> string \<Rightarrow> string" where
  "SHA224String Sum224 password = SHA224String_loop (Sum224 password) []"

text \<open>Reading a lowercase hexadecimal string back into bytes.\<close>

definition hexval :: "char \<Rightarrow> nat option" where
  "hexval c =
     (let n = (of_char c :: nat)
      in if 48 \<le> n \<and> n \<le> 57 then Some (n - 48)
         else if 97 \<le> n \<and> n \<le> 102 then Some (n - 87)
         else None)"

fun hex_decode :: "string \<Rightarrow> 8 word list option" where
  "hex_decode [] = Some []"
| "hex_decode [c] = None"
| "hex_decode (a # b # cs) =
     (case (hexval a, hexval b, hex_decode cs) of
        (Some h, Some l, Some bs) \<Rightarrow> Some (of_nat (16 * h + l) # bs)
      | _ \<Rightarrow> None)"

section \<open>redirector\<close>

text \<open>
  A buffered channel is its capacity and the queue of values sent and not yet
  received; a send can proceed iff the queue is shorter than the capacity.  The state
  of the redirector is whether its context is done, the channel, and the connections
  closed so far.  \<open>Redirect\<close> is one \<open>select\<close> over the send and \<open>ctx.Done()\<close>: the
  result lists every way the statement can complete in this state (Go picks any case
  that is ready), and is empty when no case is ready and the caller waits.
\<close>

record Redirection =
  RedirectTo :: string
  InboundConn :: nat

record 'a chan =
  cap :: nat
  buf :: "'a list"

definition make_chan :: "nat \<Rightarrow> 'a chan" where
  "make_chan n = \<lparr>cap = n, buf = []\<rparr>"

definition can_send :: "'a chan \<Rightarrow> bool" where
  "can_send ch = (length (buf ch) < cap ch)"

definition send :: "'a chan \<Rightarrow> 'a \<Rightarrow> 'a chan" where
  "send ch x = ch\<lparr>buf := buf ch @ [x]\<rparr>"

record Redirector =
  ctx_done :: bool
  redirectionChan :: "Redirection chan"
  closed :: "nat list"

datatype select_case = Sent | Exiting

definition Redirect :: "Redirector \<Rightarrow> Redirection \<Rightarrow> (select_case \<times> Redirector) list" where
  "Redirect r redirection =
     (if can_send (redirectionChan r)
      then [(Sent, r\<lparr>redirectionChan := send (redirectionChan r) redirection\<rparr>)] else [])
     @ (if ctx_done r then [(Exiting, r)] else [])"

definition NewRedirector :: "bool \<Rightarrow> Redirector" where
  "NewRedirector done = \<lparr>ctx_done = done, redirectionChan = make_chan 64, closed = []\<rparr>"

text \<open>
  The \<open>select\<close> of the worker loop, over the receive from the channel and
  \<open>ctx.Done()\<close>: the worker takes the oldest pending request (and hands it to a new
  goroutine, which is not modelled), or shuts down.
\<close>

datatype worker_case = Received Redirection | Shutdown

definition worker_select :: "Redirector \<Rightarrow> (worker_case \<times> Redirector) list" where
  "worker_select r =
     (case buf (redirectionChan r) of
        [] \<Rightarrow> []
      | redirection # rest \<Rightarrow>
          [(Received redirection, r\<lparr>redirectionChan := (redirectionChan r)\<lparr>buf := rest\<rparr>\<rparr>)])
     @ (if ctx_done r then [(Shutdown, r)] else [])"

section \<open>log/slogadapter: FallbackWriter\<close>

text \<open>
  A writer is an \<open>io.Writer\<close> interface value: a dynamic type and a value of that
  type; \<open>None\<close> is the \<open>nil\<close> interface.  A dynamic type is comparable or not (a
  struct with a slice, map or function field is not).  Go's \<open>!=\<close> on two interface
  values is true when the dynamic types differ, compares the values when the types
  are the same and comparable, and panics at run time when they are the same and not
  comparable; \<open>iface_neq\<close> returns \<open>None\<close> for the panic.
\<close>

datatype dyn_type = Comparable_type nat | Uncomparable_type nat

record io_Writer =
  dynamic_type :: dyn_type
  dynamic_value :: nat

definition iface_neq :: "io_Writer option \<Rightarrow> io_Writer option \<Rightarrow> bool option" where
  "iface_neq a b =
     (case (a, b) of
        (None, None) \<Rightarrow> Some False
      | (None, Some y) \<Rightarrow> Some True
      | (Some x, None) \<Rightarrow> Some True
      | (Some x, Some y) \<Rightarrow>
          if dynamic_type x \<noteq> dynamic_type y then Some True
          else (case dynamic_type x of
                  Uncomparable_type t \<Rightarrow> None
                | Comparable_type t \<Rightarrow> Some (dynamic_value x \<noteq> dynamic_value y)))"

text \<open>
  What a writer returns for a write may depend on everything done before, so the
  behaviour of the writers is a function of the writer, the bytes and the events so
  far.  An event is a call of \<open>Write\<close> on a writer or of \<open>HandleError\<close> on an error
  handler (handlers are numbered; \<open>DefaultErrorHandler\<close> is one of them).
  \<open>os.Stderr\<close> is a pointer to a file, a comparable type.
\<close>

datatype io_event =
    WriteCall io_Writer "8 word list"
  | HandleError nat string string

type_synonym writers = "io_Writer \<Rightarrow> 8 word list \<Rightarrow> io_event list \<Rightarrow> int \<times> string option"

record FallbackWriter =
  primary :: "io_Writer option"
  fallback :: "io_Writer option"
  errorHandler :: nat

definition Stderr :: io_Writer where
  "Stderr = \<lparr>dynamic_type = Comparable_type 0, dynamic_value = 2\<rparr>"

definition DefaultErrorHandler :: nat where "DefaultErrorHandler = 0"

definition NewFallbackWriter ::
  "io_Writer option \<Rightarrow> io_Writer option \<Rightarrow> nat option \<Rightarrow> FallbackWriter" where
  "NewFallbackWriter primary' fallback' errorHandler' =
     \<lparr>primary = primary',
      fallback = (case fallback' of None \<Rightarrow> Some Stderr | Some f \<Rightarrow> Some f),
      errorHandler = (case errorHandler' of None \<Rightarrow> DefaultErrorHandler | Some h \<Rightarrow> h)\<rparr>"

text \<open>A call of \<open>Write\<close> returns \<open>(n, err)\<close> or panics.\<close>

datatype write_result = Returns int "string option" | Panics string

text \<open>
  The second half of \<open>Write\<close>, from "Try fallback writer" on: the condition
  \<open>fallback != nil && fallback != primary\<close>, then the write.
\<close>

definition Write_fallback ::
  "writers \<Rightarrow> FallbackWriter \<Rightarrow> 8 word list \<Rightarrow> io_event list
     \<Rightarrow> write_result \<times> io_event list" where
  "Write_fallback W fw p evs =
     (case fallback fw of
        None \<Rightarrow> (Returns (int (length p)) None, evs)
      | Some f \<Rightarrow>
          (case iface_neq (Some f) (primary fw) of
             None \<Rightarrow> (Panics ''runtime error: comparing uncomparable type'', evs)
           | Some False \<Rightarrow> (Returns (int (length p)) None, evs)
           | Some True \<Rightarrow>
               (case W f p evs of
                  (n, None) \<Rightarrow> (Returns n None, evs @ [WriteCall f p])
                | (n, Some err) \<Rightarrow>
                    (Returns (int (length p)) None,
                     evs @ [WriteCall f p,
                            HandleError (errorHandler fw) err ''fallback writer failed'']))))"

definition Write ::
  "writers \<Rightarrow> FallbackWriter \<Rightarrow> 8 word list \<Rightarrow> io_event list
     \<Rightarrow> write_result \<times> io_event list" where
  "Write W fw p evs =
     (case primary fw of
        None \<Rightarrow> Write_fallback W fw p evs
      | Some pw \<Rightarrow>
          (case W pw p evs of
             (n, None) \<Rightarrow> (Returns n None, evs @ [WriteCall pw p])
           | (n, Some err) \<Rightarrow>
               Write_fallback W fw p
                 (evs @ [WriteCall pw p, HandleError (errorHandler fw) err ''primary writer failed''])))"

section \<open>Concrete inputs\<close>

text \<open>
  The values at which the theorems below are instantiated: a set of writers that all
  fail, a file writer, two writers that are values of one struct type with a slice
  field, a redirector whose queue holds 64 pending requests, the SHA-224 digest of
  the string abc, and two TLS configurations.
\<close>

definition failing_writers :: writers where
  "failing_writers w p evs = (0, Some ''input/output error'')"

definition file_writer :: io_Writer where
  "file_writer = \<lparr>dynamic_type = Comparable_type 0, dynamic_value = 5\<rparr>"

definition slice_writer :: "nat \<Rightarrow> io_Writer" where
  "slice_writer v = \<lparr>dynamic_type = Uncomparable_type 1, dynamic_value = v\<rparr>"

definition pending :: Redirection where
  "pending = \<lparr>RedirectTo = ''127.0.0.1:80'', InboundConn = 1\<rparr>"

definition incoming :: Redirection where
  "incoming = \<lparr>RedirectTo = ''127.0.0.1:80'', InboundConn = 7\<rparr>"

definition full_redirector :: "bool \<Rightarrow> Redirector" where
  "full_redirector done =
     (NewRedirector done)\<lparr>redirectionChan := \<lparr>cap = 64, buf = replicate 64 pending\<rparr>\<rparr>"

definition sha224_abc :: "8 word list" where
  "sha224_abc =
     [0x23, 0x09, 0x7d, 0x22, 0x34, 0x05, 0xd8, 0x22, 0x86, 0x42, 0xa4, 0x77, 0xbd, 0xa2,
      0x55, 0xb3, 0x2a, 0xad, 0xbc, 0xe4, 0xbd, 0xa0, 0xb3, 0xf7, 0xe3, 0x6c, 0x9d, 0xa7]"




text \<open>
  For the router: an environment in which \<open>ToLower\<close> and \<open>EqualFold\<close> work on ASCII
  letters, the only pattern that does not compile is an open parenthesis, one name
  resolves (to 1.2.3.4), no geodata file is found, and the parsers know the texts of
  the rules below; then the configuration of the specification's example, one with
  an address range and the strategy IPOnDemand, and one with a malformed regex.
\<close>

definition ascii_lower :: "char \<Rightarrow> char" where
  "ascii_lower ch =
     (let n = (of_char ch :: nat) in if 65 \<le> n \<and> n \<le> 90 then char_of (n + 32) else ch)"

definition example_env :: env where
  "example_env =
     \<lparr>ToLower = map ascii_lower,
      EqualFold = (\<lambda>a b. map ascii_lower a = map ascii_lower b),
      regexp_Compile = (\<lambda>p. if p = ''('' then Some (NewError ''missing closing )'') else None),
      regexp_Match = (\<lambda>p t. if p = ''('' then Inl (NewError ''missing closing )'') else Inr False),
      ResolveIP = (\<lambda>a. if DomainName a = ''x.bad.example'' then Inr [1, 2, 3, 4]
                        else Inl (NewError ''no such host'')),
      Address_String = DomainName,
      LoadIP = (\<lambda>file c. Inl (NewError ''no such file'')),
      LoadSite = (\<lambda>file c. Inl (NewError ''no such file'')),
      ParseIP = (\<lambda>t. if t = ''1.2.3.4'' then Some (v4InV6Prefix @ [1, 2, 3, 4]) else None),
      ParseInt = (\<lambda>t. if t = ''32'' then Inr 32 else Inl (NewError ''invalid syntax'')),
      freedom_NewClient = Inr 1,
      tunnel_DialConn = (\<lambda>c a. Inr 0)\<rparr>"

definition example_cfg :: "string \<Rightarrow> Config" where
  "example_cfg ds =
     \<lparr>Router_Bypass = [''domain:corp.lan''],
      Router_Proxy = [''domain:example.com''],
      Router_Block = [''domain:bad.example''],
      DomainStrategy = ds,
      DefaultPolicy = ''proxy'',
      GeoIPFilename = ''geoip.dat'',
      GeoSiteFilename = ''geosite.dat''\<rparr>"

definition ondemand_cfg :: Config where
  "ondemand_cfg =
     \<lparr>Router_Bypass = [],
      Router_Proxy = [''cidr:1.2.3.4/32''],
      Router_Block = [''domain:bad.example''],
      DomainStrategy = ''ip_on_demand'',
      DefaultPolicy = ''bypass'',
      GeoIPFilename = ''geoip.dat'',
      GeoSiteFilename = ''geosite.dat''\<rparr>"

definition bad_regex_cfg :: "string \<Rightarrow> Config" where
  "bad_regex_cfg rule =
     \<lparr>Router_Bypass = [rule],
      Router_Proxy = [''domain:example.com''],
      Router_Block = [],
      DomainStrategy = ''as_is'',
      DefaultPolicy = ''proxy'',
      GeoIPFilename = ''geoip.dat'',
      GeoSiteFilename = ''geosite.dat''\<rparr>"

definition domain_address :: "string \<Rightarrow> Address" where
  "domain_address name =
     \<lparr>AddressType = tunnel_DomainName, DomainName = name, IP = [], Port = 443\<rparr>"

section \<open>Theorems\<close>

subsection \<open>ParseCipher\<close>

lemma ParseCipher_inner_True:
  "ParseCipher_inner True p all (result, logs) =
     (case suite_id all p of None \<Rightarrow> result | Some i \<Rightarrow> result @ [i], logs)"
  by (induction all) (simp_all add: suite_id_def)

lemma ParseCipher_outer_eq:
  "ParseCipher_outer all s (result, logs) = (result @ List.map_filter (suite_id all) s, logs)"
proof (induction s arbitrary: result)
  case Nil
  then show ?case by (simp add: List.map_filter_simps)
next
  case (Cons p ps)
  then show ?case
    by (cases "suite_id all p") (simp_all add: ParseCipher_inner_True List.map_filter_simps)
qed

text \<open>
  C10.  For every list of names, ParseCipher returns, in input order, the ID of the
  (first) suite of the TLS library's table whose name equals the entry, for exactly
  those entries that name a suite; the other entries are skipped, and no
  "invalid cipher suite" warning is written, whatever the input.
\<close>

theorem ParseCipher_ids_no_warning:
  "ParseCipher all s = (List.map_filter (suite_id all) s, [])"
  by (simp add: ParseCipher_def ParseCipher_outer_eq)

theorem ParseCipher_ids_no_warning_witness:
  "ParseCipher
     [\<lparr>Name = ''TLS_AES_128_GCM_SHA256'', ID = 0x1301\<rparr>,
      \<lparr>Name = ''TLS_AES_256_GCM_SHA384'', ID = 0x1302\<rparr>]
     [''TLS_AES_256_GCM_SHA384'', ''NO_SUCH_SUITE'', ''TLS_AES_128_GCM_SHA256'']
   = ([0x1302, 0x1301], [])"
  using ParseCipher_ids_no_warning
    [of "[\<lparr>Name = ''TLS_AES_128_GCM_SHA256'', ID = 0x1301\<rparr>,
          \<lparr>Name = ''TLS_AES_256_GCM_SHA384'', ID = 0x1302\<rparr>]"
        "[''TLS_AES_256_GCM_SHA384'', ''NO_SUCH_SUITE'', ''TLS_AES_128_GCM_SHA256'']"]
  by (simp add: suite_id_def List.map_filter_simps)

subsection \<open>logLevelFromConfig\<close>

lemmas Level_defs =
  LevelTrace_def LevelDebug_def LevelInfo_def LevelWarn_def LevelError_def LevelFatal_def

text \<open>The levels other than 4 are as the configuration scale says.\<close>

lemma logLevelFromConfig_other_levels:
  "logLevelFromConfig 0 = LevelDebug \<and> logLevelFromConfig 1 = LevelInfo
   \<and> logLevelFromConfig 2 = LevelWarn \<and> logLevelFromConfig 3 = LevelError
   \<and> \<not> Enabled (logLevelFromConfig 5) LevelFatal
   \<and> (level \<notin> {0, 1, 2, 3, 4, 5} \<longrightarrow> logLevelFromConfig level = LevelInfo)"
  by (simp add: logLevelFromConfig_def Enabled_def Level_defs)


subsection \<open>FallbackWriter.Write\<close>

text \<open>
  Whenever \<open>Write\<close> returns, the error it returns is nil; so a failure can reach the
  caller only as a panic.
\<close>

lemma Write_fallback_returns_nil:
  "fst (Write_fallback W fw p evs) = Returns n err \<Longrightarrow> err = None"
  by (auto simp: Write_fallback_def split: option.splits prod.splits bool.splits)

lemma Write_returns_nil: "fst (Write W fw p evs) = Returns n err \<Longrightarrow> err = None"
  by (auto simp: Write_def split: option.splits prod.splits dest: Write_fallback_returns_nil)

text \<open>
  When the comparison of the fallback with the primary does not panic, the call
  returns.  Then a failed primary write is followed by a write on the fallback
  when that is a different writer, and when the fallback write fails too the
  call returns the length of the slice.
\<close>

lemma iface_neq_nil [simp]: "iface_neq (Some f) None = Some True"
  by (simp add: iface_neq_def)

lemma Write_fallback_comparable:
  assumes "iface_neq (fallback fw) (primary fw) = Some b"
  shows "\<exists>n. fst (Write_fallback W fw p evs) = Returns n None"
  using assms
  by (cases "fallback fw"; cases b; cases "W (the (fallback fw)) p evs")
     (auto simp: Write_fallback_def split: option.splits)

lemma Write_comparable:
  assumes "iface_neq (fallback fw) (primary fw) = Some b"
  shows "\<exists>n. fst (Write W fw p evs) = Returns n None"
proof (cases "primary fw")
  case None
  with Write_fallback_comparable [OF assms] show ?thesis by (simp add: Write_def)
next
  case (Some pw)
  show ?thesis
  proof (cases "W pw p evs")
    case (Pair n err)
    with Some Write_fallback_comparable [OF assms] show ?thesis
      by (cases err) (simp_all add: Write_def)
  qed
qed

lemma Write_fallback_written:
  assumes "primary fw = Some pw" and "W pw p evs = (n, Some e)" and "fallback fw = Some f"
    and "iface_neq (Some f) (Some pw) = Some True"
  shows "WriteCall f p \<in> set (drop (length evs) (snd (Write W fw p evs)))"
  using assms
  by (auto simp: Write_def Write_fallback_def split: option.splits prod.splits bool.splits)

lemma Write_both_fail:
  assumes "primary fw = Some pw" and "W pw p evs = (n, Some e)" and "fallback fw = Some f"
    and "iface_neq (Some f) (Some pw) = Some True"
    and "W f p (evs @ [WriteCall pw p, HandleError (errorHandler fw) e ''primary writer failed''])
           = (m, Some e')"
  shows "fst (Write W fw p evs) = Returns (int (length p)) None"
  using assms
  by (auto simp: Write_def Write_fallback_def split: option.splits prod.splits bool.splits)

lemma NewFallbackWriter_default: "fallback (NewFallbackWriter pr None h) = Some Stderr"
  by (simp add: NewFallbackWriter_def)

lemma Write_file_then_stderr:
  "Write failing_writers (NewFallbackWriter (Some file_writer) None None) [1, 2, 3] []
     = (Returns 3 None,
        [WriteCall file_writer [1, 2, 3],
         HandleError DefaultErrorHandler ''input/output error'' ''primary writer failed'',
         WriteCall Stderr [1, 2, 3],
         HandleError DefaultErrorHandler ''input/output error'' ''fallback writer failed''])"
  by (simp add: Write_def Write_fallback_def NewFallbackWriter_def failing_writers_def
        iface_neq_def file_writer_def Stderr_def)

text \<open>
  C8 (at the failing input).  The primary and the fallback are two values of one
  struct type that has a slice field, and the write to the primary fails.  Then the
  comparison \<open>fallback != primary\<close> panics: the call does not return, the bytes are
  never written to the fallback, and the failure of the logging sink reaches the
  caller as a panic.
\<close>

theorem Write_panics_uncomparable_writers:
  "Write failing_writers (NewFallbackWriter (Some (slice_writer 1)) (Some (slice_writer 2)) None)
       [1, 2, 3] []
     = (Panics ''runtime error: comparing uncomparable type'',
        [WriteCall (slice_writer 1) [1, 2, 3],
         HandleError DefaultErrorHandler ''input/output error'' ''primary writer failed''])
   \<and> WriteCall (slice_writer 2) [1, 2, 3]
       \<notin> set (snd (Write failing_writers
                      (NewFallbackWriter (Some (slice_writer 1)) (Some (slice_writer 2)) None)
                      [1, 2, 3] []))"
  by (simp add: Write_def Write_fallback_def NewFallbackWriter_def failing_writers_def
        iface_neq_def slice_writer_def)

subsection \<open>tls.NewClient\<close>



subsection \<open>Redirector.Redirect\<close>

text \<open>
  C2, as stated, fails: with 64 requests pending and the context not done, no case of
  the select in Redirect is ready, so the call completes in no way and the caller
  waits; nothing closes the inbound connection of the new request.  With the context
  done the call returns, and the connection is still not closed.
\<close>

theorem Redirect_full_does_not_close:
  "\<not> can_send (redirectionChan (full_redirector False))
   \<and> Redirect (full_redirector False) incoming = []
   \<and> Redirect (full_redirector True) incoming = [(Exiting, full_redirector True)]
   \<and> InboundConn incoming \<notin> set (closed (full_redirector True))"
  by (simp add: Redirect_def can_send_def full_redirector_def NewRedirector_def)

text \<open>
  C2, amended.  The queue made by NewRedirector has capacity 64 and is empty.  When
  the queue is full, Redirect completes only by the cancellation of the context, and
  then leaves the redirector as it was; otherwise the caller waits.  When the queue
  has space, Redirect can complete by appending the request to the queue, and it
  does so when the context is not done.  When the worker takes a request from a
  full queue, the queue has space again.  However Redirect completes, it closes no
  connection and the capacity of the queue is unchanged.
\<close>

theorem Redirect_full_waits:
  "cap (redirectionChan (NewRedirector d)) = 64
   \<and> buf (redirectionChan (NewRedirector d)) = []
   \<and> (\<not> can_send (redirectionChan r) \<longrightarrow>
        Redirect r red = (if ctx_done r then [(Exiting, r)] else []))
   \<and> (can_send (redirectionChan r) \<longrightarrow>
        Redirect r red =
          (Sent, r\<lparr>redirectionChan :=
                     (redirectionChan r)\<lparr>buf := buf (redirectionChan r) @ [red]\<rparr>\<rparr>)
          # (if ctx_done r then [(Exiting, r)] else []))
   \<and> (length (buf (redirectionChan r)) = cap (redirectionChan r) \<and> 0 < cap (redirectionChan r)
        \<longrightarrow> (\<forall>(w, r') \<in> set (worker_select r).
               w \<noteq> Shutdown \<longrightarrow>
                 w = Received (hd (buf (redirectionChan r))) \<and> can_send (redirectionChan r')))
   \<and> (\<forall>(how, r') \<in> set (Redirect r red).
        closed r' = closed r \<and> cap (redirectionChan r') = cap (redirectionChan r))"
proof (intro conjI impI)
  show "cap (redirectionChan (NewRedirector d)) = 64"
    by (simp add: NewRedirector_def make_chan_def)
  show "buf (redirectionChan (NewRedirector d)) = []"
    by (simp add: NewRedirector_def make_chan_def)
  show "Redirect r red = (if ctx_done r then [(Exiting, r)] else [])"
    if "\<not> can_send (redirectionChan r)"
    using that by (simp add: Redirect_def)
  show "Redirect r red =
          (Sent, r\<lparr>redirectionChan :=
                     (redirectionChan r)\<lparr>buf := buf (redirectionChan r) @ [red]\<rparr>\<rparr>)
          # (if ctx_done r then [(Exiting, r)] else [])"
    if "can_send (redirectionChan r)"
    using that by (simp add: Redirect_def send_def)
  show "\<forall>(w, r') \<in> set (worker_select r).
          w \<noteq> Shutdown \<longrightarrow>
            w = Received (hd (buf (redirectionChan r))) \<and> can_send (redirectionChan r')"
    if "length (buf (redirectionChan r)) = cap (redirectionChan r) \<and> 0 < cap (redirectionChan r)"
  proof (cases "buf (redirectionChan r)")
    case Nil
    with that show ?thesis by (simp add: worker_select_def)
  next
    case (Cons x xs)
    with that show ?thesis by (auto simp: worker_select_def can_send_def)
  qed
  show "\<forall>(how, r') \<in> set (Redirect r red).
          closed r' = closed r \<and> cap (redirectionChan r') = cap (redirectionChan r)"
    by (auto simp: Redirect_def send_def)
qed

lemma full_redirector_buf:
  "buf (redirectionChan (full_redirector d)) = pending # replicate 63 pending"
  by (simp add: full_redirector_def numeral_eq_Suc)

theorem Redirect_full_waits_witness:
  "Redirect (full_redirector False) incoming = []
   \<and> Redirect (full_redirector True) incoming = [(Exiting, full_redirector True)]
   \<and> cap (redirectionChan (NewRedirector False)) = 64
   \<and> Redirect (NewRedirector False) incoming
       = [(Sent, (NewRedirector False)\<lparr>redirectionChan := \<lparr>cap = 64, buf = [incoming]\<rparr>\<rparr>)]
   \<and> (\<exists>r'. worker_select (full_redirector False) = [(Received pending, r')]
         \<and> can_send (redirectionChan r')
         \<and> Redirect r' incoming
             = [(Sent, r'\<lparr>redirectionChan :=
                            \<lparr>cap = 64, buf = replicate 63 pending @ [incoming]\<rparr>\<rparr>)])"
proof -
  have f: "\<not> can_send (redirectionChan (full_redirector d))" for d
    by (simp add: can_send_def full_redirector_def)
  have e: "can_send (redirectionChan (NewRedirector False))"
    by (simp add: can_send_def NewRedirector_def make_chan_def)
  have l: "length (buf (redirectionChan (full_redirector False)))
             = cap (redirectionChan (full_redirector False))
           \<and> 0 < cap (redirectionChan (full_redirector False))"
    by (simp add: full_redirector_def)
  define r' where
    "r' = (full_redirector False)\<lparr>redirectionChan := \<lparr>cap = 64, buf = replicate 63 pending\<rparr>\<rparr>"
  have w: "worker_select (full_redirector False) = [(Received pending, r')]"
    by (simp add: worker_select_def full_redirector_buf r'_def)
       (simp add: full_redirector_def NewRedirector_def)
  have c: "can_send (redirectionChan r')"
    using Redirect_full_waits [of False "full_redirector False" incoming] l w
    by simp
  have s: "Redirect r' incoming
             = [(Sent, r'\<lparr>redirectionChan :=
                            \<lparr>cap = 64, buf = replicate 63 pending @ [incoming]\<rparr>\<rparr>)]"
    using Redirect_full_waits [of False r' incoming] c
    by (simp add: r'_def full_redirector_def NewRedirector_def)
  have "Redirect (full_redirector False) incoming = []"
    "Redirect (full_redirector True) incoming = [(Exiting, full_redirector True)]"
    "cap (redirectionChan (NewRedirector False)) = 64"
    "Redirect (NewRedirector False) incoming
       = [(Sent, (NewRedirector False)\<lparr>redirectionChan := \<lparr>cap = 64, buf = [incoming]\<rparr>\<rparr>)]"
    using Redirect_full_waits [of False "full_redirector False" incoming]
      Redirect_full_waits [of True "full_redirector True" incoming]
      Redirect_full_waits [of False "NewRedirector False" incoming] f e
    by (simp_all add: full_redirector_def NewRedirector_def make_chan_def)
  with w c s show ?thesis by blast
qed

subsection \<open>SHA224String\<close>

lemma SHA224String_loop_eq: "SHA224String_loop val str = str @ concat (map Sprintf_02x val)"
  by (induction val arbitrary: str) simp_all

lemma hexdigit_set: "n < 16 \<Longrightarrow> hexdigit n \<in> set ''0123456789abcdef''"
  unfolding hexdigit_def by (rule nth_mem) simp

lemma hexval_hexdigit_upt: "list_all (\<lambda>n. hexval (hexdigit n) = Some n) [0..<16]"
  by code_simp

lemma hexval_hexdigit: "n < 16 \<Longrightarrow> hexval (hexdigit n) = Some n"
  using hexval_hexdigit_upt by (simp add: list_all_iff)

lemma high_nibble_less: "unat (v :: 8 word) div 16 < 16"
  using unsigned_less [of v, where 'a = nat] by simp

lemma hex_decode_Sprintf:
  "hex_decode (Sprintf_02x v @ s) = map_option ((#) v) (hex_decode s)"
proof -
  have l: "unat v mod 16 < 16" by simp
  show ?thesis
    by (cases "hex_decode s")
       (simp_all add: Sprintf_02x_def hexval_hexdigit [OF high_nibble_less]
          hexval_hexdigit [OF l] del: of_nat_add of_nat_mult)
qed

lemma hex_decode_concat: "hex_decode (concat (map Sprintf_02x val)) = Some val"
  by (induction val) (simp_all add: hex_decode_Sprintf)

lemma length_concat_hex: "length (concat (map Sprintf_02x val)) = 2 * length val"
  by (induction val) (simp_all add: Sprintf_02x_def)

lemma set_Sprintf_02x:
  assumes "c \<in> set (Sprintf_02x v)"
  shows "c \<in> set ''0123456789abcdef''"
proof -
  have l: "unat v mod 16 < 16" by simp
  from assms have "c = hexdigit (unat v div 16) \<or> c = hexdigit (unat v mod 16)"
    by (simp add: Sprintf_02x_def)
  then show ?thesis
    using hexdigit_set [OF high_nibble_less, of v] hexdigit_set [OF l] by blast
qed

lemma set_concat_hex:
  "c \<in> set (concat (map Sprintf_02x val)) \<Longrightarrow> c \<in> set ''0123456789abcdef''"
  using set_Sprintf_02x by (simp only: set_concat set_map) blast

text \<open>
  C4.  For every password, when the digest function returns the 28 bytes of a
  SHA-224 digest, SHA224String returns 56 characters, each a lowercase hexadecimal
  digit, and they are the hexadecimal encoding of the digest: reading them back
  gives the digest.
\<close>

theorem SHA224String_hex:
  assumes "length (Sum224 password) = 28"
  shows "length (SHA224String Sum224 password) = 56
       \<and> (\<forall>c \<in> set (SHA224String Sum224 password). c \<in> set ''0123456789abcdef'')
       \<and> hex_decode (SHA224String Sum224 password) = Some (Sum224 password)"
proof (intro conjI ballI)
  show "length (SHA224String Sum224 password) = 56"
    using assms by (simp add: SHA224String_def SHA224String_loop_eq length_concat_hex)
  show "hex_decode (SHA224String Sum224 password) = Some (Sum224 password)"
    by (simp add: SHA224String_def SHA224String_loop_eq hex_decode_concat)
  fix c assume "c \<in> set (SHA224String Sum224 password)"
  then show "c \<in> set ''0123456789abcdef''"
    by (intro set_concat_hex [of c "Sum224 password"])
       (simp add: SHA224String_def SHA224String_loop_eq)
qed

lemma SHA224String_abc:
  "SHA224String (\<lambda>p. sha224_abc) ''abc'' =
     ''23097d223405d8228642a477bda255b32aadbce4bda0b3f7e36c9da7''"
  by (simp add: SHA224String_def sha224_abc_def Sprintf_02x_def hexdigit_def)

theorem SHA224String_hex_witness:
  "length (SHA224String (\<lambda>p. sha224_abc) ''abc'') = 56
   \<and> hex_decode (SHA224String (\<lambda>p. sha224_abc) ''abc'') = Some sha224_abc
   \<and> SHA224String (\<lambda>p. sha224_abc) ''abc'' =
       ''23097d223405d8228642a477bda255b32aadbce4bda0b3f7e36c9da7''"
proof -
  have h: "length ((\<lambda>p::string. sha224_abc) ''abc'') = 28" by (simp add: sha224_abc_def)
  show ?thesis
    using SHA224String_hex [of "\<lambda>p. sha224_abc" "''abc''", OF h] SHA224String_abc by simp
qed

subsection \<open>Router: the policy loop and the range of Route\<close>

lemmas policy_defs = Block_def Bypass_def Proxy_def
lemmas strategy_defs = AsIs_def IPIfNonMatch_def IPOnDemand_def

declare policy_loop.simps [simp del]

lemma policy_loop_Block:
  "policy_loop m Block =
     (if m Block then Some Block else if m Bypass then Some Bypass
      else if m Proxy then Some Proxy else None)"
  by (simp add: policy_loop.simps [of m 0] policy_loop.simps [of m 1]
        policy_loop.simps [of m 2] policy_loop.simps [of m 3] policy_defs)

lemma policy_loop_range: "policy_loop m Block = Some i \<Longrightarrow> i \<in> {Block, Bypass, Proxy}"
  by (auto simp: policy_loop_Block split: if_splits)

lemma Route_range:
  "defaultPolicy c \<in> {Block, Bypass, Proxy} \<Longrightarrow> Route E c a \<in> {Block, Bypass, Proxy}"
  unfolding Route_def Route_ondemand_def Route_domains_def Route_nonmatch_def
  by (auto split: option.splits sum.splits if_splits dest!: policy_loop_range)



lemma append_domains_policy [simp]:
  "defaultPolicy (append_domains c st ds) = defaultPolicy c"
  by (simp add: append_domains_def)

lemma append_cidrs_policy [simp]:
  "defaultPolicy (append_cidrs c st ds) = defaultPolicy c"
  by (simp add: append_cidrs_def)

lemma load_geoip_policy [simp]: "defaultPolicy (load_geoip E cfg cs c) = defaultPolicy c"
  by (induction cs arbitrary: c) (simp_all split: sum.splits)

lemma geosite_attrs_policy [simp]:
  "defaultPolicy (geosite_attrs E w d as st c) = defaultPolicy c"
  by (induction as arbitrary: c) simp_all

lemma geosite_domains_policy [simp]:
  "defaultPolicy (geosite_domains E w ds st c) = defaultPolicy c"
  by (induction ds arbitrary: c) simp_all

lemma geosite_load_policy [simp]:
  "defaultPolicy (geosite_load E cfg code' w st c) = defaultPolicy c"
  by (simp add: geosite_load_def split: sum.splits)

lemma load_geosite_policy [simp]: "defaultPolicy (load_geosite E cfg cs c) = defaultPolicy c"
  by (induction cs arbitrary: c) (simp_all add: Let_def)

lemma add_rules_policy [simp]: "defaultPolicy (add_rules E ty infos c) = defaultPolicy c"
  by (induction infos arbitrary: c) simp_all

lemma add_regex_policy: "add_regex E infos c = Inr c' \<Longrightarrow> defaultPolicy c' = defaultPolicy c"
  by (induction infos arbitrary: c) (auto split: option.splits)

lemma add_cidr_policy: "add_cidr E infos c = Inr c' \<Longrightarrow> defaultPolicy c' = defaultPolicy c"
  by (induction infos arbitrary: c) (auto split: option.splits sum.splits list.splits)

lemma parse_defaultPolicy_range:
  "parse_defaultPolicy s = Some dp \<Longrightarrow> dp \<in> {Block, Bypass, Proxy}"
  by (auto simp: parse_defaultPolicy_def split: if_splits)

lemma NewClient_defaultPolicy:
  assumes "NewClient E cfg u = Inr c"
  shows "defaultPolicy c \<in> {Block, Bypass, Proxy}"
  using assms
  by (auto simp: NewClient_def Let_def split: sum.splits option.splits
        dest!: add_regex_policy add_cidr_policy parse_defaultPolicy_range)



text \<open>
  C3.  For every address that Route sends to Block, DialConn returns the error
  "router blocked address" and makes no call to DialConn of the underlay client or
  of the direct client: its list of calls is empty.
\<close>

theorem DialConn_blocked:
  "Route E c a = Block \<Longrightarrow>
     DialConn E c a = (Err (NewError (''router blocked address: '' @ Address_String E a)), [])"
  by (simp add: DialConn_def policy_defs)

subsection \<open>Router: the constructor\<close>

lemma add_regex_fails:
  "\<exists>ci \<in> set infos. regexp_Compile E (code ci) \<noteq> None \<Longrightarrow> \<exists>e. add_regex E infos c = Inl e"
  by (induction infos arbitrary: c) (auto split: option.splits)

lemma loadCode_loop_mono: "ci \<in> set codes \<Longrightarrow> ci \<in> set (loadCode_loop prefix st ss codes)"
  by (induction ss arbitrary: codes) (simp_all add: Let_def)

lemma loadCode_loop_mem:
  "s \<in> set ss \<Longrightarrow> HasPrefix s prefix \<Longrightarrow> drop (length prefix) s \<noteq> [] \<Longrightarrow>
     \<exists>ci \<in> set (loadCode_loop prefix st ss codes). code ci = drop (length prefix) s"
proof (induction ss arbitrary: codes)
  case Nil
  then show ?case by simp
next
  case (Cons a ss)
  show ?case
  proof (cases "s = a")
    case True
    let ?ci = "\<lparr>code = drop (length prefix) s, strategy = st\<rparr>"
    have "?ci \<in> set (codes @ [?ci])" by simp
    then have "?ci \<in> set (loadCode_loop prefix st ss (codes @ [?ci]))"
      by (rule loadCode_loop_mono)
    with True Cons.prems show ?thesis
      by (auto simp: Let_def intro!: bexI [of _ ?ci])
  next
    case False
    with Cons show ?thesis by simp
  qed
qed

lemma loadCode_mem:
  assumes "s \<in> set (Router_Proxy cfg) \<union> set (Router_Bypass cfg) \<union> set (Router_Block cfg)"
    and "HasPrefix s prefix" and "drop (length prefix) s \<noteq> []"
  shows "\<exists>ci \<in> set (loadCode cfg prefix). code ci = drop (length prefix) s"
proof -
  from assms(1) consider "s \<in> set (Router_Proxy cfg)" | "s \<in> set (Router_Bypass cfg)"
    | "s \<in> set (Router_Block cfg)" by blast
  then show ?thesis
  proof cases
    case 1
    from loadCode_loop_mem [OF 1 assms(2,3)] obtain ci where
      "ci \<in> set (loadCode_loop prefix Proxy (Router_Proxy cfg) [])" "code ci = drop (length prefix) s"
      by blast
    then show ?thesis
      unfolding loadCode_def by (blast intro: loadCode_loop_mono)
  next
    case 2
    from loadCode_loop_mem [OF 2 assms(2,3)] obtain ci where
      "ci \<in> set (loadCode_loop prefix Bypass (Router_Bypass cfg)
                    (loadCode_loop prefix Proxy (Router_Proxy cfg) []))"
      "code ci = drop (length prefix) s"
      by blast
    then show ?thesis
      unfolding loadCode_def by (blast intro: loadCode_loop_mono)
  next
    case 3
    from loadCode_loop_mem [OF 3 assms(2,3)] show ?thesis
      unfolding loadCode_def .
  qed
qed

lemma NewClient_regex_stages:
  assumes "NewClient E cfg u = Inr c"
  shows "\<exists>c4 c5 c6. add_regex E (loadCode cfg ''regex:'') c4 = Inr c5
           \<and> add_regex E (loadCode cfg ''regexp:'') c5 = Inr c6"
  using assms
  by (auto simp: NewClient_def Let_def split: sum.splits option.splits)






lemma loadCode_ex: "loadCode (example_cfg ds) ''domain:'' =
   [\<lparr>code = ''example.com'', strategy = Proxy\<rparr>, \<lparr>code = ''corp.lan'', strategy = Bypass\<rparr>,
    \<lparr>code = ''bad.example'', strategy = Block\<rparr>]"
  by (simp add: loadCode_def example_cfg_def HasPrefix_def)

lemma loadCode_ex2: 
  "loadCode (example_cfg ds) ''geoip:'' = []"
  "loadCode (example_cfg ds) ''geosite:'' = []"
  "loadCode (example_cfg ds) ''keyword:'' = []"
  "loadCode (example_cfg ds) ''regex:'' = []"
  "loadCode (example_cfg ds) ''regexp:'' = []"
  "loadCode (example_cfg ds) ''full:'' = []"
  "loadCode (example_cfg ds) ''cidr:'' = []"
  by (simp_all add: loadCode_def example_cfg_def HasPrefix_def)



lemma example_NewClient:
  assumes "parse_domainStrategy (map ascii_lower ds) = Some k"
  shows "\<exists>c. NewClient example_env (example_cfg ds) u = Inr c
     \<and> domains c Block = [\<lparr>Type = Domain_Domain, Value = ''bad.example'', Attribute = []\<rparr>]
     \<and> domains c Bypass = [\<lparr>Type = Domain_Domain, Value = ''corp.lan'', Attribute = []\<rparr>]
     \<and> domains c Proxy = [\<lparr>Type = Domain_Domain, Value = ''example.com'', Attribute = []\<rparr>]
     \<and> (\<forall>i. cidrs c i = []) \<and> defaultPolicy c = Proxy \<and> domainStrategy c = k"
proof -
  have e: "ToLower example_env = map ascii_lower" "freedom_NewClient example_env = Inr 1"
    by (simp_all add: example_env_def)
  have d: "DomainStrategy (example_cfg ds) = ds" "DefaultPolicy (example_cfg ds) = ''proxy''"
    by (simp_all add: example_cfg_def)
  show ?thesis
    using assms by (simp add: NewClient_def e d ascii_lower_def loadCode_ex loadCode_ex2 parse_defaultPolicy_def
          append_domains_def policy_defs)
qed

text \<open>
  C5.  If a rule of the configuration is \<open>regex:p\<close> or \<open>regexp:p\<close> and the pattern
  \<open>p\<close> does not compile, the constructor returns an error.  (The empty pattern
  compiles, in Go as here by assumption: a rule that is the bare prefix is skipped.)
\<close>

theorem NewClient_bad_regex:
  assumes rule: "rule \<in> set (Router_Proxy cfg) \<union> set (Router_Bypass cfg) \<union> set (Router_Block cfg)"
    and form: "rule = ''regex:'' @ p \<or> rule = ''regexp:'' @ p"
    and bad: "regexp_Compile E p \<noteq> None"
    and empty: "regexp_Compile E [] = None"
  shows "\<exists>err. NewClient E cfg u = Inl err"
proof (cases "NewClient E cfg u")
  case (Inl err)
  then show ?thesis by blast
next
  case (Inr c)
  from bad empty have p: "p \<noteq> []" by auto
  from NewClient_regex_stages [OF Inr] obtain c4 c5 c6 where
    s5: "add_regex E (loadCode cfg ''regex:'') c4 = Inr c5"
    and s6: "add_regex E (loadCode cfg ''regexp:'') c5 = Inr c6" by blast
  from form show ?thesis
  proof
    assume r: "rule = ''regex:'' @ p"
    then have hp: "HasPrefix rule ''regex:''" and dr: "drop (length ''regex:'') rule = p"
      by (simp_all add: HasPrefix_def)
    have ne: "drop (length ''regex:'') rule \<noteq> []" unfolding dr by (rule p)
    from loadCode_mem [OF rule hp ne] obtain ci where
      ci: "ci \<in> set (loadCode cfg ''regex:'')" "code ci = drop (length ''regex:'') rule" by blast
    from ci(2) have "code ci = p" unfolding dr .
    with bad ci(1) have "\<exists>ci \<in> set (loadCode cfg ''regex:''). regexp_Compile E (code ci) \<noteq> None"
      by blast
    from add_regex_fails [OF this, of c4] s5 show ?thesis by simp
  next
    assume r: "rule = ''regexp:'' @ p"
    then have hp: "HasPrefix rule ''regexp:''" and dr: "drop (length ''regexp:'') rule = p"
      by (simp_all add: HasPrefix_def)
    have ne: "drop (length ''regexp:'') rule \<noteq> []" unfolding dr by (rule p)
    from loadCode_mem [OF rule hp ne] obtain ci where
      ci: "ci \<in> set (loadCode cfg ''regexp:'')" "code ci = drop (length ''regexp:'') rule" by blast
    from ci(2) have "code ci = p" unfolding dr .
    with bad ci(1) have "\<exists>ci \<in> set (loadCode cfg ''regexp:''). regexp_Compile E (code ci) \<noteq> None"
      by blast
    from add_regex_fails [OF this, of c5] s6 show ?thesis by simp
  qed
qed

theorem NewClient_bad_regex_witness:
  "(\<exists>err. NewClient example_env (bad_regex_cfg ''regex:('') 0 = Inl err)
   \<and> (\<exists>err. NewClient example_env (bad_regex_cfg ''regexp:('') 0 = Inl err)"
proof -
  have c: "regexp_Compile example_env ''('' \<noteq> None" "regexp_Compile example_env [] = None"
    by (simp_all add: example_env_def)
  have m: "''regex:('' \<in> set (Router_Proxy (bad_regex_cfg ''regex:(''))
              \<union> set (Router_Bypass (bad_regex_cfg ''regex:(''))
              \<union> set (Router_Block (bad_regex_cfg ''regex:(''))"
    "''regexp:('' \<in> set (Router_Proxy (bad_regex_cfg ''regexp:(''))
              \<union> set (Router_Bypass (bad_regex_cfg ''regexp:(''))
              \<union> set (Router_Block (bad_regex_cfg ''regexp:(''))"
    by (simp_all add: bad_regex_cfg_def)
  show ?thesis
    using NewClient_bad_regex [OF m(1) _ c, where u = 0]
      NewClient_bad_regex [OF m(2) _ c, where u = 0]
    by simp
qed

text \<open>
  C9.  For every client returned by the constructor, Route returns Block, Bypass or
  Proxy for every address (under any resolver), and DialConn does not panic.
\<close>

theorem NewClient_Route_range:
  assumes "NewClient E cfg u = Inr c"
  shows "Route E' c a \<in> {Block, Bypass, Proxy} \<and> (\<forall>m. fst (DialConn E' c a) \<noteq> Panic m)"
proof -
  have r: "Route E' c a \<in> {Block, Bypass, Proxy}"
    by (rule Route_range [OF NewClient_defaultPolicy [OF assms]])
  then have "\<forall>m. fst (DialConn E' c a) \<noteq> Panic m"
    by (auto simp: DialConn_def Let_def split: sum.splits)
  with r show ?thesis by simp
qed

subsection \<open>Router: matching a domain name\<close>

lemma HasPrefix_iff: "HasPrefix s p \<longleftrightarrow> (\<exists>b. s = p @ b)"
proof
  assume "HasPrefix s p"
  then have "s = p @ drop (length p) s"
    by (metis HasPrefix_def append_take_drop_id)
  then show "\<exists>b. s = p @ b" ..
next
  assume "\<exists>b. s = p @ b"
  then show "HasPrefix s p" by (auto simp: HasPrefix_def)
qed

lemma HasSuffix_iff: "HasSuffix s p \<longleftrightarrow> (\<exists>a. s = a @ p)"
proof
  assume "HasSuffix s p"
  then have "s = take (length s - length p) s @ p"
    by (metis HasSuffix_def append_take_drop_id)
  then show "\<exists>a. s = a @ p" ..
next
  assume "\<exists>a. s = a @ p"
  then show "HasSuffix s p" by (auto simp: HasSuffix_def)
qed

lemma Index_ge_minus1: "- 1 \<le> Index s sub"
  by (induction s) (simp_all add: Let_def)

lemma Index_nonneg_iff: "0 \<le> Index s sub \<longleftrightarrow> (\<exists>a b. s = a @ sub @ b)"
proof (induction s)
  case Nil
  then show ?case by simp
next
  case (Cons c cs)
  show ?case
  proof (cases "HasPrefix (c # cs) sub")
    case True
    then obtain b where "c # cs = [] @ sub @ b" by (auto simp: HasPrefix_iff)
    then have "\<exists>a b. c # cs = a @ sub @ b" by blast
    with True show ?thesis by simp
  next
    case False
    have "(\<exists>a b. c # cs = a @ sub @ b) \<longleftrightarrow> (\<exists>a b. cs = a @ sub @ b)"
    proof
      assume "\<exists>a b. c # cs = a @ sub @ b"
      then obtain a b where ab: "c # cs = a @ sub @ b" by blast
      with False have "a \<noteq> []" by (auto simp: HasPrefix_iff)
      then obtain a' where "a = c # a'" using ab by (cases a) auto
      with ab have "cs = a' @ sub @ b" by simp
      then show "\<exists>a b. cs = a @ sub @ b" by blast
    next
      assume "\<exists>a b. cs = a @ sub @ b"
      then obtain a b where "cs = a @ sub @ b" by blast
      then have "c # cs = (c # a) @ sub @ b" by simp
      then show "\<exists>a b. c # cs = a @ sub @ b" by blast
    qed
    with False Cons show ?thesis by (auto simp: Let_def not_less)
  qed
qed

lemma Contains_iff: "Contains s sub \<longleftrightarrow> (\<exists>a b. s = a @ sub @ b)"
  by (simp add: Contains_def Index_nonneg_iff)

text \<open>In \<open>matchDomain\<close> the byte \<open>target[idx-1]\<close> is read in range.\<close>

lemma Index_in_range:
  assumes "HasSuffix target d"
  shows "0 \<le> Index target d"
proof -
  from assms obtain a where "target = a @ d @ []" by (auto simp: HasSuffix_iff)
  then show ?thesis unfolding Index_nonneg_iff by blast
qed

lemma Index_le_length: "Index s sub \<le> int (length s)"
  by (induction s) (simp_all add: Let_def)

text \<open>
  \<open>Index\<close> is the position of the first occurrence: the string occurs there, at no
  earlier position, and nowhere when the result is negative.
\<close>

lemma Index_occurrence:
  "0 \<le> Index s sub \<Longrightarrow> HasPrefix (drop (nat (Index s sub)) s) sub"
proof (induction s)
  case Nil
  then show ?case by (simp add: HasPrefix_def split: if_splits)
next
  case (Cons c cs)
  show ?case
  proof (cases "HasPrefix (c # cs) sub")
    case True
    then show ?thesis by simp
  next
    case False
    with Cons.prems have r: "0 \<le> Index cs sub" by (simp add: Let_def split: if_splits)
    with False have "Index (c # cs) sub = Index cs sub + 1" by (simp add: Let_def)
    moreover from r have "nat (Index cs sub + 1) = Suc (nat (Index cs sub))" by simp
    ultimately show ?thesis using Cons.IH [OF r] by simp
  qed
qed

lemma Index_first:
  "0 \<le> Index s sub \<Longrightarrow> j < nat (Index s sub) \<Longrightarrow> \<not> HasPrefix (drop j s) sub"
proof (induction s arbitrary: j)
  case Nil
  then show ?case by (simp split: if_splits)
next
  case (Cons c cs)
  show ?case
  proof (cases "HasPrefix (c # cs) sub")
    case True
    with Cons.prems show ?thesis by simp
  next
    case False
    with Cons.prems have r: "0 \<le> Index cs sub" by (simp add: Let_def split: if_splits)
    with False have i: "Index (c # cs) sub = Index cs sub + 1" by (simp add: Let_def)
    show ?thesis
    proof (cases j)
      case 0
      with False show ?thesis by simp
    next
      case (Suc j')
      with Cons.prems(2) i r have "j' < nat (Index cs sub)" by simp
      from Cons.IH [OF r this] Suc show ?thesis by simp
    qed
  qed
qed

lemma Index_none: "Index s sub < 0 \<Longrightarrow> \<not> HasPrefix (drop j s) sub"
proof (induction s arbitrary: j)
  case Nil
  then show ?case by (simp add: HasPrefix_def split: if_splits)
next
  case (Cons c cs)
  then have np: "\<not> HasPrefix (c # cs) sub" and r: "Index cs sub < 0"
    by (auto simp: Let_def split: if_splits)
  show ?case
  proof (cases j)
    case 0
    with np show ?thesis by simp
  next
    case (Suc j')
    with Cons.IH [OF r, of j'] show ?thesis by simp
  qed
qed

lemma Domain_anchor:
  assumes suf: "HasSuffix target d"
    and idx: "Index target d = int (length target) - int (length d)"
  shows "(Index target d = 0 \<or> target ! nat (Index target d - 1) = CHR ''.'')
           \<longleftrightarrow> (target = d \<or> HasSuffix target (CHR ''.'' # d))"
proof -
  from suf obtain a where t: "target = a @ d" by (auto simp: HasSuffix_iff)
  have i: "Index target d = int (length a)" using idx t by simp
  show ?thesis
  proof (cases "a = []")
    case True
    with t i show ?thesis by simp
  next
    case False
    then obtain a' x where a: "a = a' @ [x]" by (metis rev_exhaust)
    have n: "nat (Index target d - 1) = length a'" using i a by simp
    have "target ! length a' = x" using t a by (simp add: nth_append)
    moreover have "HasSuffix target (CHR ''.'' # d) \<longleftrightarrow> x = CHR ''.''"
      using t a by (auto simp: HasSuffix_iff)
    moreover have "target \<noteq> d" using t False by simp
    moreover have "Index target d \<noteq> 0" using i False by simp
    ultimately show ?thesis using n by simp
  qed
qed

lemma dot_suffix_imp_suffix:
  "target = d \<or> HasSuffix target (CHR ''.'' # d) \<Longrightarrow> HasSuffix target d"
proof (erule disjE)
  assume "target = d"
  then show ?thesis by (simp add: HasSuffix_def)
next
  assume "HasSuffix target (CHR ''.'' # d)"
  then obtain a where "target = a @ CHR ''.'' # d" by (auto simp: HasSuffix_iff)
  then have "target = (a @ [CHR ''.'']) @ d" by simp
  then show ?thesis unfolding HasSuffix_iff by blast
qed

lemma matchDomain_iff:
  assumes "list_all (rule_ok E target) list"
  shows "matchDomain E list target \<longleftrightarrow> list_matches E list target"
  using assms
proof (induction list)
  case Nil
  then show ?case by (simp add: list_matches_def)
next
  case (Cons d list)
  then have ok: "rule_ok E target d" and IH: "matchDomain E list target \<longleftrightarrow> list_matches E list target"
    by simp_all
  have lm: "list_matches E (d # list) target \<longleftrightarrow> rule_matches E d target \<or> list_matches E list target"
    by (simp add: list_matches_def)
  show ?case
  proof (cases "Type d")
    case Domain_Plain
    then show ?thesis by (simp add: lm IH rule_matches_def Contains_iff)
  next
    case Domain_Regex
    with ok obtain m where "regexp_Match E (Value d) target = Inr m"
      by (auto simp: rule_ok_def split: sum.splits)
    with Domain_Regex show ?thesis by (simp add: lm IH rule_matches_def)
  next
    case Domain_Domain
    with ok have fe: "first_at_end target (Value d)" by (simp add: rule_ok_def)
    show ?thesis
    proof (cases "HasSuffix target (Value d)")
      case True
      with fe have "Index target (Value d) = int (length target) - int (length (Value d))"
        by (simp add: first_at_end_def)
      from Domain_anchor [OF True this] Domain_Domain True show ?thesis
        by (simp add: lm IH rule_matches_def Let_def)
    next
      case False
      with dot_suffix_imp_suffix [of target "Value d"]
      have "\<not> (target = Value d \<or> HasSuffix target (CHR ''.'' # Value d))" by blast
      with Domain_Domain False show ?thesis
        by (simp add: lm IH rule_matches_def)
    qed
  next
    case Domain_Full
    then show ?thesis by (auto simp: lm IH rule_matches_def)
  next
    case (Domain_Other t)
    then show ?thesis by (simp add: lm IH rule_matches_def)
  qed
qed

lemma Route_domain_general:
  assumes "AddressType a = tunnel_DomainName"
    and "Route_ondemand E c a = None"
    and "rules_ok E c (DomainName a)"
  shows "Route E c a =
      (if list_matches E (domains c Block) (DomainName a) then Block
       else if list_matches E (domains c Bypass) (DomainName a) then Bypass
       else if list_matches E (domains c Proxy) (DomainName a) then Proxy
       else (case Route_nonmatch E c a of Some i \<Rightarrow> i | None \<Rightarrow> defaultPolicy c))"
  using assms
  by (simp add: Route_def Route_domains_def policy_loop_Block rules_ok_def matchDomain_iff)
lemma matchIP_Nil: "matchIP [] ip = False"
  by (simp add: matchIP_def)

lemma example_routes:
  assumes "domains c Block = [\<lparr>Type = Domain_Domain, Value = ''bad.example'', Attribute = []\<rparr>]"
    and "domains c Bypass = [\<lparr>Type = Domain_Domain, Value = ''corp.lan'', Attribute = []\<rparr>]"
    and "domains c Proxy = [\<lparr>Type = Domain_Domain, Value = ''example.com'', Attribute = []\<rparr>]"
    and "\<forall>i. cidrs c i = []" and "defaultPolicy c = Proxy"
  shows "Route E c (domain_address ''x.bad.example'') = Block"
    and "Route E c (domain_address ''api.corp.lan'') = Bypass"
    and "Route E c (domain_address ''www.example.com'') = Proxy"
    and "Route E c (domain_address ''other.com'') = Proxy"
  using assms
  by (simp_all add: Route_def Route_ondemand_def Route_domains_def Route_nonmatch_def
        policy_loop_Block matchIP_Nil domain_address_def HasSuffix_def HasPrefix_def
        split: sum.splits)

lemma example_cidr: "matchIP [\<lparr>Ip = v4InV6Prefix @ [1, 2, 3, 4], Prefix = 32\<rparr>] [1, 2, 3, 4]"
  by code_simp

lemma ondemand_NewClient:
  "\<exists>c. NewClient example_env ondemand_cfg u = Inr c
     \<and> domains c Block = [\<lparr>Type = Domain_Domain, Value = ''bad.example'', Attribute = []\<rparr>]
     \<and> cidrs c Block = [] \<and> cidrs c Bypass = []
     \<and> cidrs c Proxy = [\<lparr>Ip = v4InV6Prefix @ [1, 2, 3, 4], Prefix = 32\<rparr>]
     \<and> domainStrategy c = IPOnDemand"
proof -
  have l: "loadCode ondemand_cfg ''geoip:'' = []"
  "loadCode ondemand_cfg ''geosite:'' = []"
  "loadCode ondemand_cfg ''keyword:'' = []"
  "loadCode ondemand_cfg ''regex:'' = []"
  "loadCode ondemand_cfg ''regexp:'' = []"
  "loadCode ondemand_cfg ''full:'' = []"
  "loadCode ondemand_cfg ''domain:'' = [\<lparr>code = ''bad.example'', strategy = Block\<rparr>]"
  "loadCode ondemand_cfg ''cidr:'' = [\<lparr>code = ''1.2.3.4/32'', strategy = Proxy\<rparr>]"
    by (simp_all add: loadCode_def ondemand_cfg_def HasPrefix_def)
  have e: "ToLower example_env = map ascii_lower" "freedom_NewClient example_env = Inr 1"
    "ParseIP example_env ''1.2.3.4'' = Some (v4InV6Prefix @ [1, 2, 3, 4])"
    "ParseInt example_env ''32'' = Inr 32"
    by (simp_all add: example_env_def)
  have d: "DomainStrategy ondemand_cfg = ''ip_on_demand''" "DefaultPolicy ondemand_cfg = ''bypass''"
    by (simp_all add: ondemand_cfg_def)
  show ?thesis
    by (simp add: NewClient_def e d l ascii_lower_def parse_defaultPolicy_def
          parse_domainStrategy_def append_domains_def append_cidrs_def policy_defs)
qed



text \<open>
  The index used in the Domain case is that of the first occurrence of the rule in
  the target, not that of the suffix: \<open>domain:com\<close> matches \<open>x.comcom\<close>, and
  \<open>domain:bad.example\<close> does not match its subdomain \<open>abad.example.bad.example\<close>.
\<close>

lemma matchDomain_first_occurrence:
  "matchDomain E [\<lparr>Type = Domain_Domain, Value = ''com'', Attribute = []\<rparr>] ''x.comcom''
   \<and> \<not> rule_matches E \<lparr>Type = Domain_Domain, Value = ''com'', Attribute = []\<rparr> ''x.comcom''
   \<and> \<not> matchDomain E [\<lparr>Type = Domain_Domain, Value = ''bad.example'', Attribute = []\<rparr>]
          ''abad.example.bad.example''
   \<and> rule_matches E \<lparr>Type = Domain_Domain, Value = ''bad.example'', Attribute = []\<rparr>
          ''abad.example.bad.example''"
  by (simp add: rule_matches_def HasSuffix_def HasPrefix_def)

text \<open>
  C1, as stated, fails: under the strategy IPOnDemand the resolved address is matched
  against the address ranges first.  With the rules block = domain:bad.example and
  proxy = cidr:1.2.3.4/32, the name x.bad.example, which resolves to 1.2.3.4, matches
  the Block list and is routed to Proxy.
\<close>

lemma ondemand_lookup:
  "\<exists>c. NewClient example_env ondemand_cfg 0 = Inr c
     \<and> domains c Block = [\<lparr>Type = Domain_Domain, Value = ''bad.example'', Attribute = []\<rparr>]
     \<and> Route_ondemand example_env c (domain_address ''x.bad.example'') = Some Proxy"
proof -
  from ondemand_NewClient [of 0] obtain c where
    c: "NewClient example_env ondemand_cfg 0 = Inr c"
    and b: "domains c Block = [\<lparr>Type = Domain_Domain, Value = ''bad.example'', Attribute = []\<rparr>]"
    and i: "cidrs c Block = []" "cidrs c Bypass = []"
       "cidrs c Proxy = [\<lparr>Ip = v4InV6Prefix @ [1, 2, 3, 4], Prefix = 32\<rparr>]"
    and s: "domainStrategy c = IPOnDemand" by blast
  have r: "ResolveIP example_env (domain_address ''x.bad.example'') = Inr [1, 2, 3, 4]"
    by (simp add: example_env_def domain_address_def)
  have "Route_ondemand example_env c (domain_address ''x.bad.example'') = Some Proxy"
    by (simp add: Route_ondemand_def s newIPAddress_def r policy_loop_Block i matchIP_Nil example_cidr)
  with c b show ?thesis by blast
qed

theorem Route_ondemand_overrides_domain_rules:
  "\<exists>c. NewClient example_env ondemand_cfg 0 = Inr c
     \<and> list_matches example_env (domains c Block) ''x.bad.example''
     \<and> matchDomain example_env (domains c Block) ''x.bad.example''
     \<and> Route example_env c (domain_address ''x.bad.example'') = Proxy
     \<and> Proxy \<noteq> Block"
proof -
  from ondemand_lookup obtain c where
    c: "NewClient example_env ondemand_cfg 0 = Inr c"
    and b: "domains c Block = [\<lparr>Type = Domain_Domain, Value = ''bad.example'', Attribute = []\<rparr>]"
    and o: "Route_ondemand example_env c (domain_address ''x.bad.example'') = Some Proxy"
    by blast
  from o have "Route example_env c (domain_address ''x.bad.example'') = Proxy"
    by (simp add: Route_def domain_address_def)
  moreover have "list_matches example_env (domains c Block) ''x.bad.example''"
    by (simp add: b list_matches_def rule_matches_def HasSuffix_def)
  moreover have "matchDomain example_env (domains c Block) ''x.bad.example''"
    by (simp add: b HasSuffix_def HasPrefix_def)
  ultimately show ?thesis using c by (auto simp: policy_defs)
qed

text \<open>
  C1, amended.  For a domain name for which the on-demand lookup returns no policy
  (the strategy is not IPOnDemand, or the name does not resolve, or no address range
  holds the resolved address), Route returns the first of Block, Bypass, Proxy whose
  domain list matches, and when none matches the policy of the IPIfNonMatch lookup
  or else the default policy; when the on-demand lookup returns a policy, Route
  returns that one.  A list matches when one of its rules matches in the
  words of the specification; this is shown for lists whose Regex patterns compile
  and whose Domain rules occur in the target first at its end.  With the rules of
  the example and any of the three strategies, Route gives Block for x.bad.example,
  Bypass for api.corp.lan, Proxy for www.example.com and Proxy for other.com.
\<close>

theorem Route_domain_rules:
  "(AddressType a = tunnel_DomainName \<and> Route_ondemand E c a = None
      \<and> rules_ok E c (DomainName a)
    \<longrightarrow> Route E c a =
         (if list_matches E (domains c Block) (DomainName a) then Block
          else if list_matches E (domains c Bypass) (DomainName a) then Bypass
          else if list_matches E (domains c Proxy) (DomainName a) then Proxy
          else (case Route_nonmatch E c a of Some i \<Rightarrow> i | None \<Rightarrow> defaultPolicy c)))
   \<and> (AddressType a = tunnel_DomainName \<and> Route_ondemand E c a = Some p \<longrightarrow> Route E c a = p)
   \<and> (\<forall>ds \<in> {''as_is'', ''ip_if_non_match'', ''ip_on_demand''}.
        \<exists>c'. NewClient example_env (example_cfg ds) 0 = Inr c'
          \<and> Route example_env c' (domain_address ''x.bad.example'') = Block
          \<and> Route example_env c' (domain_address ''api.corp.lan'') = Bypass
          \<and> Route example_env c' (domain_address ''www.example.com'') = Proxy
          \<and> Route example_env c' (domain_address ''other.com'') = Proxy)"
proof (intro conjI impI ballI)
  assume "AddressType a = tunnel_DomainName \<and> Route_ondemand E c a = None
      \<and> rules_ok E c (DomainName a)"
  then show "Route E c a =
         (if list_matches E (domains c Block) (DomainName a) then Block
          else if list_matches E (domains c Bypass) (DomainName a) then Bypass
          else if list_matches E (domains c Proxy) (DomainName a) then Proxy
          else (case Route_nonmatch E c a of Some i \<Rightarrow> i | None \<Rightarrow> defaultPolicy c))"
    by (intro Route_domain_general) simp_all
next
  assume "AddressType a = tunnel_DomainName \<and> Route_ondemand E c a = Some p"
  then show "Route E c a = p" by (simp add: Route_def)
next
  fix ds :: string
  assume "ds \<in> {''as_is'', ''ip_if_non_match'', ''ip_on_demand''}"
  then have "\<exists>k. parse_domainStrategy (map ascii_lower ds) = Some k"
    by (auto simp: parse_domainStrategy_def ascii_lower_def)
  then obtain k where "parse_domainStrategy (map ascii_lower ds) = Some k" ..
  from example_NewClient [OF this, of 0] obtain c' where
    "NewClient example_env (example_cfg ds) 0 = Inr c'"
    "domains c' Block = [\<lparr>Type = Domain_Domain, Value = ''bad.example'', Attribute = []\<rparr>]"
    "domains c' Bypass = [\<lparr>Type = Domain_Domain, Value = ''corp.lan'', Attribute = []\<rparr>]"
    "domains c' Proxy = [\<lparr>Type = Domain_Domain, Value = ''example.com'', Attribute = []\<rparr>]"
    "\<forall>i. cidrs c' i = []" "defaultPolicy c' = Proxy"
    by blast
  with example_routes [of c' example_env]
  show "\<exists>c'. NewClient example_env (example_cfg ds) 0 = Inr c'
          \<and> Route example_env c' (domain_address ''x.bad.example'') = Block
          \<and> Route example_env c' (domain_address ''api.corp.lan'') = Bypass
          \<and> Route example_env c' (domain_address ''www.example.com'') = Proxy
          \<and> Route example_env c' (domain_address ''other.com'') = Proxy"
    by blast
qed

lemma example_as_is:
  "\<exists>c. NewClient example_env (example_cfg ''as_is'') 0 = Inr c
     \<and> domains c Block = [\<lparr>Type = Domain_Domain, Value = ''bad.example'', Attribute = []\<rparr>]
     \<and> domains c Bypass = [\<lparr>Type = Domain_Domain, Value = ''corp.lan'', Attribute = []\<rparr>]
     \<and> domains c Proxy = [\<lparr>Type = Domain_Domain, Value = ''example.com'', Attribute = []\<rparr>]
     \<and> (\<forall>i. cidrs c i = []) \<and> defaultPolicy c = Proxy \<and> domainStrategy c = AsIs"
  by (rule example_NewClient) (simp add: parse_domainStrategy_def ascii_lower_def)

theorem Route_domain_rules_witness:
  "(\<exists>c. NewClient example_env (example_cfg ''as_is'') 0 = Inr c
     \<and> Route_ondemand example_env c (domain_address ''www.example.com'') = None
     \<and> rules_ok example_env c ''www.example.com''
     \<and> \<not> list_matches example_env (domains c Block) ''www.example.com''
     \<and> \<not> list_matches example_env (domains c Bypass) ''www.example.com''
     \<and> list_matches example_env (domains c Proxy) ''www.example.com''
     \<and> Route example_env c (domain_address ''www.example.com'') = Proxy)
   \<and> (\<exists>c. NewClient example_env ondemand_cfg 0 = Inr c
     \<and> Route_ondemand example_env c (domain_address ''x.bad.example'') = Some Proxy
     \<and> Route example_env c (domain_address ''x.bad.example'') = Proxy)"
proof -
  from example_as_is obtain c where
    c: "NewClient example_env (example_cfg ''as_is'') 0 = Inr c"
    and d: "domains c Block = [\<lparr>Type = Domain_Domain, Value = ''bad.example'', Attribute = []\<rparr>]"
       "domains c Bypass = [\<lparr>Type = Domain_Domain, Value = ''corp.lan'', Attribute = []\<rparr>]"
       "domains c Proxy = [\<lparr>Type = Domain_Domain, Value = ''example.com'', Attribute = []\<rparr>]"
    and s: "domainStrategy c = AsIs" by blast
  have o: "Route_ondemand example_env c (domain_address ''www.example.com'') = None"
    by (simp add: Route_ondemand_def s strategy_defs)
  have ok: "rules_ok example_env c ''www.example.com''"
    by (simp add: rules_ok_def rule_ok_def first_at_end_def d HasSuffix_def HasPrefix_def)
  have m: "\<not> list_matches example_env (domains c Block) ''www.example.com''"
    "\<not> list_matches example_env (domains c Bypass) ''www.example.com''"
    "list_matches example_env (domains c Proxy) ''www.example.com''"
    by (simp_all add: list_matches_def rule_matches_def d HasSuffix_def)
  have r: "Route example_env c (domain_address ''www.example.com'') = Proxy"
    using Route_domain_rules [of "domain_address ''www.example.com''" example_env c] o ok m
    by (simp add: domain_address_def)
  from ondemand_lookup obtain c' where
    c': "NewClient example_env ondemand_cfg 0 = Inr c'"
    and o': "Route_ondemand example_env c' (domain_address ''x.bad.example'') = Some Proxy"
    by blast
  have r': "Route example_env c' (domain_address ''x.bad.example'') = Proxy"
    using Route_domain_rules [of "domain_address ''x.bad.example''" example_env c' Proxy] o'
    by (simp add: domain_address_def)
  from c o ok m r c' o' r' show ?thesis by blast
qed

subsection \<open>Router: witnesses at the example client\<close>

theorem DialConn_blocked_witness:
  "\<exists>c. NewClient example_env (example_cfg ''as_is'') 0 = Inr c
     \<and> Route example_env c (domain_address ''x.bad.example'') = Block
     \<and> DialConn example_env c (domain_address ''x.bad.example'')
         = (Err (NewError ''router blocked address: x.bad.example''), [])"
proof -
  from example_as_is obtain c where
    c: "NewClient example_env (example_cfg ''as_is'') 0 = Inr c"
    and d: "domains c Block = [\<lparr>Type = Domain_Domain, Value = ''bad.example'', Attribute = []\<rparr>]"
       "domains c Bypass = [\<lparr>Type = Domain_Domain, Value = ''corp.lan'', Attribute = []\<rparr>]"
       "domains c Proxy = [\<lparr>Type = Domain_Domain, Value = ''example.com'', Attribute = []\<rparr>]"
       "\<forall>i. cidrs c i = []" "defaultPolicy c = Proxy" by blast
  have r: "Route example_env c (domain_address ''x.bad.example'') = Block"
    by (rule example_routes(1) [OF d])
  have "DialConn example_env c (domain_address ''x.bad.example'')
         = (Err (NewError ''router blocked address: x.bad.example''), [])"
    using DialConn_blocked [OF r] by (simp add: example_env_def domain_address_def)
  with c r show ?thesis by blast
qed

theorem NewClient_Route_range_witness:
  "\<exists>c. NewClient example_env (example_cfg ''as_is'') 0 = Inr c
     \<and> Route example_env c (domain_address ''other.com'') \<in> {Block, Bypass, Proxy}
     \<and> fst (DialConn example_env c (domain_address ''other.com'')) \<noteq> Panic ''unknown policy''"
proof -
  from example_as_is obtain c where
    c: "NewClient example_env (example_cfg ''as_is'') 0 = Inr c" by blast
  from NewClient_Route_range [OF c, of example_env "domain_address ''other.com''"] c
  show ?thesis by blast
qed

end
